theory Spec2Isabelle
  imports Main
begin

section \<open>Values, exceptions and the remote service\<close>

text \<open>
  The two scripts \<^verbatim>\<open>gather_bus_updates.py\<close> and \<^verbatim>\<open>gather_predictions.py\<close> share
  \<^verbatim>\<open>query_api\<close> and \<^verbatim>\<open>get_vehicles\<close> word for word; they are embedded once.

  A decoded JSON document is what \<^verbatim>\<open>json.loads\<close> returns: \<^verbatim>\<open>None\<close>, a bool, an int, a
  float (kept as its \<^verbatim>\<open>repr\<close> text, the pipeline never computes with it), a str, a list, or a
  dict (an association list of its entries; \<^verbatim>\<open>json.loads\<close> keeps one entry per key).
\<close>

datatype json =
    JNull
  | JBool bool
  | JInt int
  | JFloat string
  | JStr string
  | JList "json list"
  | JObj "(string \<times> json) list"

text \<open>
  The Python exceptions the scripts can raise on a decoded document, and \<open>PandasError\<close>,
  an exception raised inside pandas where pandas is not modelled, with the name of its
  class.
\<close>

datatype error =
    KeyError
  | TypeError
  | IndexError
  | AttributeError
  | JSONDecodeError
  | ZeroDivisionError
  | PandasError string

fun bind_err :: "error + 'a \<Rightarrow> ('a \<Rightarrow> error + 'b) \<Rightarrow> error + 'b" where
  "bind_err (Inl e) f = Inl e"
| "bind_err (Inr x) f = f x"

text \<open>\<^verbatim>\<open>obj[key]\<close> with a str key: only a dict accepts it, and a missing key raises.\<close>

fun subscript :: "json \<Rightarrow> string \<Rightarrow> error + json" where
  "subscript (JObj kvs) k = (case map_of kvs k of None \<Rightarrow> Inl KeyError | Some v \<Rightarrow> Inr v)"
| "subscript j k = Inl TypeError"

text \<open>\<^verbatim>\<open>key in obj\<close> with a str key: dict keys, list members, or a substring of a str.\<close>

fun substring :: "string \<Rightarrow> string \<Rightarrow> bool" where
  "substring p [] = (p = [])"
| "substring p (c # cs) = (take (length p) (c # cs) = p \<or> substring p cs)"

fun contains :: "json \<Rightarrow> string \<Rightarrow> error + bool" where
  "contains (JObj kvs) k = Inr (k \<in> set (map fst kvs))"
| "contains (JList xs) k = Inr (JStr k \<in> set xs)"
| "contains (JStr s) k = Inr (substring k s)"
| "contains j k = Inl TypeError"

text \<open>\<^verbatim>\<open>for x in obj\<close>: a list yields its members, a dict its keys, a str its characters.\<close>

fun py_iter :: "json \<Rightarrow> error + json list" where
  "py_iter (JList xs) = Inr xs"
| "py_iter (JObj kvs) = Inr (map (\<lambda>kv. JStr (fst kv)) kvs)"
| "py_iter (JStr s) = Inr (map (\<lambda>c. JStr [c]) s)"
| "py_iter j = Inl TypeError"

text \<open>A list comprehension \<^verbatim>\<open>[f(x) for x in xs]\<close> whose body can raise: the first raise wins.\<close>

fun comprehension :: "('a \<Rightarrow> error + 'b) \<Rightarrow> 'a list \<Rightarrow> error + 'b list" where
  "comprehension f [] = Inr []"
| "comprehension f (x # xs) =
     bind_err (f x) (\<lambda>y. bind_err (comprehension f xs) (\<lambda>ys. Inr (y # ys)))"

text \<open>\<^verbatim>\<open>str(n)\<close> of an int, \<^verbatim>\<open>sep.join(xs)\<close>, \<^verbatim>\<open>xs[a:b]\<close> and \<^verbatim>\<open>s.replace(' ', '@')\<close>.\<close>

definition digit_char :: "nat \<Rightarrow> char" where
  "digit_char d = ''0123456789'' ! d"

function digits10 :: "nat \<Rightarrow> string" where
  "digits10 n = (if n < 10 then [digit_char n] else digits10 (n div 10) @ [digit_char (n mod 10)])"
  by pat_completeness auto
termination
  by (relation "measure (\<lambda>n. n)") auto

definition str_int :: "int \<Rightarrow> string" where
  "str_int i = (if i < 0 then CHR ''-'' # digits10 (nat (- i)) else digits10 (nat i))"

text \<open>
  \<^verbatim>\<open>str(x)\<close> of a decoded value. The text of a list or dict is Python's \<^verbatim>\<open>repr\<close>, which is
  left open here as the parameter \<open>repr\<close>: nothing below depends on it.
\<close>

fun py_str :: "(json \<Rightarrow> string) \<Rightarrow> json \<Rightarrow> string" where
  "py_str repr (JStr s) = s"
| "py_str repr (JInt i) = str_int i"
| "py_str repr (JFloat r) = r"
| "py_str repr (JBool b) = (if b then ''True'' else ''False'')"
| "py_str repr JNull = ''None''"
| "py_str repr j = repr j"

fun join :: "string \<Rightarrow> string list \<Rightarrow> string" where
  "join sep [] = []"
| "join sep [x] = x"
| "join sep (x # y # ys) = x @ sep @ join sep (y # ys)"

definition slice :: "nat \<Rightarrow> nat \<Rightarrow> 'a list \<Rightarrow> 'a list" where
  "slice a b xs = drop a (take b xs)"

fun replace_space :: "json \<Rightarrow> error + string" where
  "replace_space (JStr s) = Inr (map (\<lambda>c. if c = CHR '' '' then CHR ''@'' else c) s)"
| "replace_space j = Inl AttributeError"

subsection \<open>Module constants\<close>

definition BASE_URL :: string where
  "BASE_URL = ''http://realtime.portauthority.org/bustime/api/v3''"

definition DATAFEED_NAME :: string where
  "DATAFEED_NAME = ''Port Authority Bus''"

definition VEHICLES_ENDPOINT :: string where
  "VEHICLES_ENDPOINT = ''/getvehicles''"

definition PREDICTIONS_ENDPOINT :: string where
  "PREDICTIONS_ENDPOINT = ''/getpredictions''"

subsection \<open>Requests, responses and the module state\<close>

text \<open>
  A parameter dict maps \<^verbatim>\<open>str\<close> keys to \<^verbatim>\<open>str\<close> values or \<^verbatim>\<open>None\<close> (the API key is
  \<^verbatim>\<open>os.getenv\<close>'s result, \<^verbatim>\<open>None\<close> when the variable is unset). Dicts are mutable objects, so
  they live in a store indexed by address; address \<open>default_params\<close> holds the one dict created
  when \<^verbatim>\<open>def query_api(endpoint, params={})\<close> is executed.

  \<open>sent\<close> records every request handed to \<^verbatim>\<open>requests.get\<close>, in order. The remote service is
  a function from the number of earlier requests and the request to the response; of a
  response the code reads the status code and \<^verbatim>\<open>json.loads(response.text)\<close>, here \<open>decoded\<close>,
  which is \<open>None\<close> when the text is not JSON. Connection-level exceptions of the HTTP library,
  console output and the passing of time are outside the model.
\<close>

type_synonym params = "string \<rightharpoonup> string option"

record request =
  url :: string
  query :: params

record response =
  status_code :: int
  decoded :: "json option"

type_synonym transport = "nat \<Rightarrow> request \<Rightarrow> response"

record api_state =
  BUSTIME_API_KEY :: "string option"
  CALLS_COUNT :: int
  dicts :: "nat \<Rightarrow> params"
  fresh :: nat
  sent :: "request list"

definition default_params :: nat where
  "default_params = 0"

definition init_api :: "string option \<Rightarrow> api_state" where
  "init_api key = \<lparr>BUSTIME_API_KEY = key, CALLS_COUNT = 0, dicts = (\<lambda>a. Map.empty),
     fresh = 1, sent = []\<rparr>"

definition json_loads :: "response \<Rightarrow> error + json" where
  "json_loads r = (case decoded r of None \<Rightarrow> Inl JSONDecodeError | Some j \<Rightarrow> Inr j)"

text \<open>
  \<^verbatim>\<open>query_api(endpoint, params)\<close>; \<open>params_arg = None\<close> is a call that omits the argument.
  The three assignments write into the dict the caller passed, the request is sent with
  that dict, the counter is incremented, and only then is the status inspected. The returned
  \<^verbatim>\<open>None\<close> is \<open>JNull\<close>.
\<close>

definition inject :: "api_state \<Rightarrow> params \<Rightarrow> params" where
  "inject st d = d(''key'' \<mapsto> BUSTIME_API_KEY st, ''format'' \<mapsto> Some ''json'',
     ''rtpidatafeed'' \<mapsto> Some DATAFEED_NAME)"

definition query_api ::
  "transport \<Rightarrow> string \<Rightarrow> nat option \<Rightarrow> api_state \<Rightarrow> (error + json) \<times> api_state" where
  "query_api net endpoint params_arg st =
     (let p = (case params_arg of None \<Rightarrow> default_params | Some a \<Rightarrow> a);
          d = inject st (dicts st p);
          req = \<lparr>url = BASE_URL @ endpoint, query = d\<rparr>;
          resp = net (length (sent st)) req;
          st' = st\<lparr>CALLS_COUNT := CALLS_COUNT st + 1, dicts := (dicts st)(p := d),
                  sent := sent st @ [req]\<rparr>
      in if status_code resp = 200
         then (bind_err (json_loads resp) (\<lambda>j. subscript j ''bustime-response''), st')
         else (Inr JNull, st'))"

text \<open>
  \<^verbatim>\<open>params = {}\<close> followed by \<^verbatim>\<open>params[k] = v\<close> and \<^verbatim>\<open>params['tmres'] = 's'\<close>: a new
  dict at a new address.
\<close>

definition new_params :: "string \<Rightarrow> string \<Rightarrow> api_state \<Rightarrow> nat \<times> api_state" where
  "new_params k v st =
     (fresh st,
      st\<lparr>dicts := (dicts st)(fresh st := [k \<mapsto> Some v, ''tmres'' \<mapsto> Some ''s'']),
         fresh := Suc (fresh st)\<rparr>)"

subsection \<open>Vehicles\<close>

record vehicle =
  v_id :: json
  v_timestamp :: json
  v_lat :: json
  v_lon :: json
  v_destination :: json
  v_pattern_id :: json
  v_pattern_distance :: json
  v_trip_id :: json
  v_speed :: json
  v_passenger_load :: json

definition vehicle_of :: "json \<Rightarrow> error + vehicle" where
  "vehicle_of v =
     bind_err (subscript v ''vid'') (\<lambda>a.
     bind_err (subscript v ''tmstmp'') (\<lambda>b.
     bind_err (subscript v ''lat'') (\<lambda>c.
     bind_err (subscript v ''lon'') (\<lambda>d.
     bind_err (subscript v ''des'') (\<lambda>e.
     bind_err (subscript v ''pid'') (\<lambda>f.
     bind_err (subscript v ''pdist'') (\<lambda>g.
     bind_err (subscript v ''tatripid'') (\<lambda>h.
     bind_err (subscript v ''spd'') (\<lambda>i.
     bind_err (subscript v ''psgld'') (\<lambda>j.
       Inr \<lparr>v_id = a, v_timestamp = b, v_lat = c, v_lon = d, v_destination = e,
            v_pattern_id = f, v_pattern_distance = g, v_trip_id = h, v_speed = i,
            v_passenger_load = j\<rparr>))))))))))"

text \<open>Lines 71 to 89 of \<^verbatim>\<open>get_vehicles\<close>: from the value \<^verbatim>\<open>query_api\<close> returned to the result.\<close>

definition vehicles_of_response :: "json \<Rightarrow> error + vehicle list" where
  "vehicles_of_response resp =
     (if resp = JNull then Inr []
      else bind_err (contains resp ''vehicle'') (\<lambda>present.
        if \<not> present then Inr []
        else bind_err (subscript resp ''vehicle'') (\<lambda>raw_vehicles.
             bind_err (py_iter raw_vehicles) (comprehension vehicle_of))))"

definition get_vehicles ::
  "transport \<Rightarrow> string \<Rightarrow> api_state \<Rightarrow> (error + vehicle list) \<times> api_state" where
  "get_vehicles net route_ids st =
     (case new_params ''rt'' route_ids st of (p, st1) \<Rightarrow>
      case query_api net VEHICLES_ENDPOINT (Some p) st1 of (r, st2) \<Rightarrow>
        (bind_err r vehicles_of_response, st2))"

subsection \<open>Predictions\<close>

record prediction =
  p_timestamp :: json
  p_stop_id :: json
  p_vehicle_id :: json
  p_predicted_time :: json
  p_trip_id :: json
  p_distance_to_stop :: json

definition prediction_of :: "json \<Rightarrow> error + prediction" where
  "prediction_of p =
     bind_err (subscript p ''tmstmp'') (\<lambda>a.
     bind_err (subscript p ''stpid'') (\<lambda>b.
     bind_err (subscript p ''vid'') (\<lambda>c.
     bind_err (subscript p ''prdtm'') (\<lambda>d.
     bind_err (subscript p ''tatripid'') (\<lambda>e.
     bind_err (subscript p ''dstp'') (\<lambda>f.
       Inr \<lparr>p_timestamp = a, p_stop_id = b, p_vehicle_id = c, p_predicted_time = d,
            p_trip_id = e, p_distance_to_stop = f\<rparr>))))))"

text \<open>
  The comprehension of \<^verbatim>\<open>get_predictions\<close>, with its condition \<^verbatim>\<open>p['typ'] == 'A'\<close>: the
  condition is evaluated first, and the record is built only where it holds.
\<close>

fun arrivals :: "json list \<Rightarrow> error + prediction list" where
  "arrivals [] = Inr []"
| "arrivals (p # ps) =
     bind_err (subscript p ''typ'') (\<lambda>typ.
       if typ = JStr ''A''
       then bind_err (prediction_of p) (\<lambda>r. bind_err (arrivals ps) (\<lambda>rs. Inr (r # rs)))
       else arrivals ps)"

definition predictions_of_response :: "json \<Rightarrow> error + prediction list" where
  "predictions_of_response resp =
     (if resp = JNull then Inr []
      else bind_err (contains resp ''prd'') (\<lambda>present.
        if \<not> present then Inr []
        else bind_err (subscript resp ''prd'') (\<lambda>raw_predictions.
             bind_err (py_iter raw_predictions) arrivals)))"

definition get_predictions ::
  "transport \<Rightarrow> string \<Rightarrow> api_state \<Rightarrow> (error + prediction list) \<times> api_state" where
  "get_predictions net vehicle_ids st =
     (case new_params ''vid'' vehicle_ids st of (p, st1) \<Rightarrow>
      case query_api net PREDICTIONS_ENDPOINT (Some p) st1 of (r, st2) \<Rightarrow>
        (bind_err r predictions_of_response, st2))"

text \<open>
  \<^verbatim>\<open>get_predictions_for_vehicles\<close>: the loop \<^verbatim>\<open>for i in range(0, len(vehicles), 10)\<close> as a
  recursion on \<open>i\<close>, with \<^verbatim>\<open>total_predictions\<close> as accumulator. A raise inside
  \<^verbatim>\<open>get_predictions\<close> leaves the loop.
\<close>

definition group_ids :: "(json \<Rightarrow> string) \<Rightarrow> vehicle list \<Rightarrow> nat \<Rightarrow> string" where
  "group_ids repr vehicles i =
     join '','' (map (\<lambda>v. py_str repr (v_id v))
       (slice i (min (i + 10) (length vehicles)) vehicles))"

function predictions_from ::
  "(json \<Rightarrow> string) \<Rightarrow> transport \<Rightarrow> vehicle list \<Rightarrow> nat \<Rightarrow> prediction list \<Rightarrow> api_state
     \<Rightarrow> (error + prediction list) \<times> api_state" where
  "predictions_from repr net vehicles i total_predictions st =
     (if i < length vehicles
      then (case get_predictions net (group_ids repr vehicles i) st of
              (Inl e, st') \<Rightarrow> (Inl e, st')
            | (Inr ps, st') \<Rightarrow>
                predictions_from repr net vehicles (i + 10) (total_predictions @ ps) st')
      else (Inr total_predictions, st))"
  by pat_completeness auto
termination
  by (relation "measure (\<lambda>(repr, net, vehicles, i, total, st). length vehicles - i)") auto

definition get_predictions_for_vehicles ::
  "(json \<Rightarrow> string) \<Rightarrow> transport \<Rightarrow> vehicle list \<Rightarrow> api_state
     \<Rightarrow> (error + prediction list) \<times> api_state" where
  "get_predictions_for_vehicles repr net vehicles st = predictions_from repr net vehicles 0 [] st"

section \<open>The collection loops\<close>

subsection \<open>Tables\<close>

text \<open>
  \<^verbatim>\<open>pd.DataFrame(rows).drop_duplicates()\<close>, the one use both scripts make of pandas. What
  pandas does depends on the cells.

  \<^item> Every cell is a \<^verbatim>\<open>str\<close> or an \<^verbatim>\<open>int\<close> of 64 bits: pandas keeps each cell as it is, so
    \<^verbatim>\<open>DataFrame\<close> numbers the rows from 0 and \<^verbatim>\<open>drop_duplicates()\<close> (default \<^verbatim>\<open>keep='first'\<close>,
    all columns) removes every row equal in all columns to an earlier one and keeps the row
    labels. \<open>DataFrame\<close> and \<open>drop_duplicates\<close> below are used on such rows only.
  \<^item> Some cell is a list or a dict, the others as above: the cell cannot be hashed and
    \<^verbatim>\<open>drop_duplicates()\<close> raises \<^verbatim>\<open>TypeError\<close>.
  \<^item> Anything else (a float, a bool, \<^verbatim>\<open>None\<close>, a larger int): pandas converts whole columns
    before it compares rows, a float computation that is not modelled. Whether it raises,
    and what, is the parameter \<open>pandas\<close>, a function of the cells; when it does not, the
    table written is recorded as the rows it was built from, with no statement about its
    rows.

  \<^verbatim>\<open>to_csv(name)\<close> writes the table to the file \<open>name\<close>; its own failures are outside the
  model. \<open>written\<close> is the sequence of \<^verbatim>\<open>to_csv\<close> calls of the run, each with the name and
  the table written: a later entry with the same name replaces the file of an earlier one.
\<close>

fun hashable :: "json \<Rightarrow> bool" where
  "hashable (JList xs) = False"
| "hashable (JObj kvs) = False"
| "hashable j = True"

fun exact_cell :: "json \<Rightarrow> bool" where
  "exact_cell (JStr s) = True"
| "exact_cell (JInt i) = (- (2 ^ 63) \<le> i \<and> i < 2 ^ 63)"
| "exact_cell j = False"

definition vehicle_cells :: "vehicle \<Rightarrow> json list" where
  "vehicle_cells v = [v_id v, v_timestamp v, v_lat v, v_lon v, v_destination v, v_pattern_id v,
     v_pattern_distance v, v_trip_id v, v_speed v, v_passenger_load v]"

definition prediction_cells :: "prediction \<Rightarrow> json list" where
  "prediction_cells p = [p_timestamp p, p_stop_id p, p_vehicle_id p, p_predicted_time p,
     p_trip_id p, p_distance_to_stop p]"

type_synonym 'a frame = "(nat \<times> 'a) list"

definition DataFrame :: "'a list \<Rightarrow> 'a frame" where
  "DataFrame rows = zip [0..<length rows] rows"

fun drop_from :: "'a list \<Rightarrow> 'a frame \<Rightarrow> 'a frame" where
  "drop_from seen [] = []"
| "drop_from seen (r # rest) =
     (if snd r \<in> set seen then drop_from seen rest else r # drop_from (snd r # seen) rest)"

definition drop_duplicates :: "'a frame \<Rightarrow> 'a frame" where
  "drop_duplicates df = drop_from [] df"

datatype table =
    VehicleTable "vehicle frame"
  | PredictionTable "prediction frame"
  | CoercedVehicles "vehicle list"
  | CoercedPredictions "prediction list"

type_synonym pandas = "json list list \<Rightarrow> string option"

definition deduplicated ::
  "pandas \<Rightarrow> ('a \<Rightarrow> json list) \<Rightarrow> ('a frame \<Rightarrow> table) \<Rightarrow> ('a list \<Rightarrow> table) \<Rightarrow> 'a list
     \<Rightarrow> error + table" where
  "deduplicated pandas cells exact coerced rows =
     (if list_all (\<lambda>r. list_all exact_cell (cells r)) rows
      then Inr (exact (drop_duplicates (DataFrame rows)))
      else if list_all (\<lambda>r. list_all (\<lambda>c. exact_cell c \<or> \<not> hashable c) (cells r)) rows
      then Inl TypeError
      else (case pandas (map cells rows) of
              Some e \<Rightarrow> Inl (PandasError e)
            | None \<Rightarrow> Inr (coerced rows)))"

definition vehicles_table :: "pandas \<Rightarrow> vehicle list \<Rightarrow> error + table" where
  "vehicles_table pandas rows =
     deduplicated pandas vehicle_cells VehicleTable CoercedVehicles rows"

definition predictions_table :: "pandas \<Rightarrow> prediction list \<Rightarrow> error + table" where
  "predictions_table pandas rows =
     deduplicated pandas prediction_cells PredictionTable CoercedPredictions rows"

record state =
  api :: api_state
  vehicles :: "vehicle list"
  predictions :: "prediction list"
  written :: "(string \<times> table) list"

definition init_state :: "string option \<Rightarrow> state" where
  "init_state key = \<lparr>api = init_api key, vehicles = [], predictions = [], written = []\<rparr>"

subsection \<open>\<^verbatim>\<open>gather_bus_updates.py\<close>\<close>

text \<open>
  The loop \<^verbatim>\<open>for i in range(number_iterations)\<close> with its flush test
  \<^verbatim>\<open>(i + 1) % 600 == 0\<close>. The two literals of the script, 3600 iterations and a flush every
  600, are arguments of the loop, so that runs of other lengths can be stated; the script is
  the instance \<open>gather_bus_updates\<close>. A raise leaves the loop with the state reached. In the
  flush block the two dates are computed first, then the table, then the file is written.
\<close>

definition ROUTE_ID_updates :: string where
  "ROUTE_ID_updates = ''61A,61B,61C,61D,71A,71B,71C''"

definition updates_file_name :: "vehicle list \<Rightarrow> error + string" where
  "updates_file_name vs =
     (case vs of
        [] \<Rightarrow> Inl IndexError
      | v # rest \<Rightarrow>
          bind_err (replace_space (v_timestamp v)) (\<lambda>from_date.
          bind_err (replace_space (v_timestamp (last vs))) (\<lambda>to_date.
            Inr (''vehicles'' @ from_date @ ''-'' @ to_date @ ''.csv''))))"

definition flush_updates :: "pandas \<Rightarrow> state \<Rightarrow> (error + unit) \<times> state" where
  "flush_updates pandas st =
     (case updates_file_name (vehicles st) of
        Inl e \<Rightarrow> (Inl e, st)
      | Inr name \<Rightarrow>
          (case vehicles_table pandas (vehicles st) of
             Inl e \<Rightarrow> (Inl e, st)
           | Inr df_vehicles \<Rightarrow>
               (Inr (), st\<lparr>written := written st @ [(name, df_vehicles)]\<rparr>)))"

definition tick_updates ::
  "pandas \<Rightarrow> transport \<Rightarrow> nat \<Rightarrow> nat \<Rightarrow> state \<Rightarrow> (error + unit) \<times> state" where
  "tick_updates pandas net flush_every i st =
     (case get_vehicles net ROUTE_ID_updates (api st) of
        (Inl e, a) \<Rightarrow> (Inl e, st\<lparr>api := a\<rparr>)
      | (Inr vehicles_now, a) \<Rightarrow>
          (let st1 = st\<lparr>api := a, vehicles := vehicles st @ vehicles_now\<rparr>
           in if flush_every = 0 then (Inl ZeroDivisionError, st1)
              else if (i + 1) mod flush_every = 0 then flush_updates pandas st1
              else (Inr (), st1)))"

function updates_loop ::
  "pandas \<Rightarrow> transport \<Rightarrow> nat \<Rightarrow> nat \<Rightarrow> nat \<Rightarrow> state \<Rightarrow> (error + unit) \<times> state" where
  "updates_loop pandas net flush_every number_iterations i st =
     (if i < number_iterations
      then (case tick_updates pandas net flush_every i st of
              (Inl e, st') \<Rightarrow> (Inl e, st')
            | (Inr u, st') \<Rightarrow>
                updates_loop pandas net flush_every number_iterations (Suc i) st')
      else (Inr (), st))"
  by pat_completeness auto
termination
  by (relation "measure (\<lambda>(pandas, net, flush_every, number_iterations, i, st).
        number_iterations - i)") auto

definition gather_bus_updates ::
  "pandas \<Rightarrow> transport \<Rightarrow> string option \<Rightarrow> (error + unit) \<times> state" where
  "gather_bus_updates pandas net key = updates_loop pandas net 600 3600 0 (init_state key)"

subsection \<open>\<^verbatim>\<open>gather_predictions.py\<close>\<close>

text \<open>
  The same loop with the prediction stage, the flush test \<^verbatim>\<open>(i + 1) % 120 == 0\<close>, and both
  files named after \<^verbatim>\<open>now = int(time.time())\<close>, read once before the loop (an argument
  here). The flush block builds and writes the prediction table, then the vehicle table: a
  raise on the second leaves the first written. The script is the instance
  \<open>gather_predictions\<close>: 1440 iterations, a flush every 120.
\<close>

definition ROUTE_ID_predictions :: string where
  "ROUTE_ID_predictions = ''61A,61B''"

definition flush_predictions :: "pandas \<Rightarrow> int \<Rightarrow> state \<Rightarrow> (error + unit) \<times> state" where
  "flush_predictions pandas now st =
     (case predictions_table pandas (predictions st) of
        Inl e \<Rightarrow> (Inl e, st)
      | Inr df_predictions \<Rightarrow>
          (let st1 = st\<lparr>written := written st @
                  [(''predictions'' @ str_int now @ ''.csv'', df_predictions)]\<rparr>
           in case vehicles_table pandas (vehicles st1) of
                Inl e \<Rightarrow> (Inl e, st1)
              | Inr df_vehicles \<Rightarrow>
                  (Inr (), st1\<lparr>written := written st1 @
                     [(''vehicles'' @ str_int now @ ''.csv'', df_vehicles)]\<rparr>)))"

definition fetch_tick ::
  "(json \<Rightarrow> string) \<Rightarrow> transport \<Rightarrow> api_state
     \<Rightarrow> (error + vehicle list \<times> prediction list) \<times> api_state" where
  "fetch_tick repr net a =
     (case get_vehicles net ROUTE_ID_predictions a of
        (Inl e, a1) \<Rightarrow> (Inl e, a1)
      | (Inr vehicles_now, a1) \<Rightarrow>
          (case get_predictions_for_vehicles repr net vehicles_now a1 of
             (Inl e, a2) \<Rightarrow> (Inl e, a2)
           | (Inr predictions_now, a2) \<Rightarrow> (Inr (vehicles_now, predictions_now), a2)))"

definition tick_predictions ::
  "pandas \<Rightarrow> (json \<Rightarrow> string) \<Rightarrow> transport \<Rightarrow> int \<Rightarrow> nat \<Rightarrow> nat \<Rightarrow> state
     \<Rightarrow> (error + unit) \<times> state" where
  "tick_predictions pandas repr net now flush_every i st =
     (case fetch_tick repr net (api st) of
        (Inl e, a) \<Rightarrow> (Inl e, st\<lparr>api := a\<rparr>)
      | (Inr (vehicles_now, predictions_now), a) \<Rightarrow>
          (let st1 = st\<lparr>api := a, predictions := predictions st @ predictions_now,
                         vehicles := vehicles st @ vehicles_now\<rparr>
           in if flush_every = 0 then (Inl ZeroDivisionError, st1)
              else if (i + 1) mod flush_every = 0 then flush_predictions pandas now st1
              else (Inr (), st1)))"

function predictions_loop ::
  "pandas \<Rightarrow> (json \<Rightarrow> string) \<Rightarrow> transport \<Rightarrow> int \<Rightarrow> nat \<Rightarrow> nat \<Rightarrow> nat \<Rightarrow> state
     \<Rightarrow> (error + unit) \<times> state" where
  "predictions_loop pandas repr net now flush_every number_iterations i st =
     (if i < number_iterations
      then (case tick_predictions pandas repr net now flush_every i st of
              (Inl e, st') \<Rightarrow> (Inl e, st')
            | (Inr u, st') \<Rightarrow>
                predictions_loop pandas repr net now flush_every number_iterations (Suc i) st')
      else (Inr (), st))"
  by pat_completeness auto
termination
  by (relation "measure (\<lambda>(pandas, repr, net, now, flush_every, number_iterations, i, st).
        number_iterations - i)") auto


section \<open>Notions used in the statements\<close>

subsection \<open>One call, seen from the state before it\<close>

text \<open>
  What \<^verbatim>\<open>query_api\<close> returns for a given response; the request and the reply of a direct
  call of \<^verbatim>\<open>query_api\<close>; and the request, the reply and the state left by the one call that
  \<^verbatim>\<open>get_vehicles\<close> (\<open>k = ''rt''\<close>) or \<^verbatim>\<open>get_predictions\<close> (\<open>k = ''vid''\<close>) makes.
\<close>

definition envelope :: "response \<Rightarrow> error + json" where
  "envelope r = (if status_code r = 200
     then bind_err (json_loads r) (\<lambda>j. subscript j ''bustime-response'') else Inr JNull)"

definition query_request :: "string \<Rightarrow> nat option \<Rightarrow> api_state \<Rightarrow> request" where
  "query_request endpoint params_arg st =
     \<lparr>url = BASE_URL @ endpoint,
      query = inject st (dicts st (case params_arg of None \<Rightarrow> default_params | Some a \<Rightarrow> a))\<rparr>"

definition query_reply :: "transport \<Rightarrow> string \<Rightarrow> nat option \<Rightarrow> api_state \<Rightarrow> response" where
  "query_reply net endpoint params_arg st =
     net (length (sent st)) (query_request endpoint params_arg st)"

definition call_request :: "string \<Rightarrow> string \<Rightarrow> string \<Rightarrow> api_state \<Rightarrow> request" where
  "call_request endpoint k v st =
     \<lparr>url = BASE_URL @ endpoint, query = inject st [k \<mapsto> Some v, ''tmres'' \<mapsto> Some ''s'']\<rparr>"

definition call_reply :: "transport \<Rightarrow> string \<Rightarrow> string \<Rightarrow> string \<Rightarrow> api_state \<Rightarrow> response" where
  "call_reply net endpoint k v st = net (length (sent st)) (call_request endpoint k v st)"

definition after_call :: "string \<Rightarrow> string \<Rightarrow> string \<Rightarrow> api_state \<Rightarrow> api_state" where
  "after_call endpoint k v st =
     st\<lparr>CALLS_COUNT := CALLS_COUNT st + 1,
        dicts := (dicts st)(fresh st := query (call_request endpoint k v st)),
        fresh := Suc (fresh st),
        sent := sent st @ [call_request endpoint k v st]\<rparr>"

subsection \<open>Responses and entries\<close>

definition success_2xx :: "response \<Rightarrow> bool" where
  "success_2xx r = (200 \<le> status_code r \<and> status_code r < 300)"

definition lacks_envelope :: "response \<Rightarrow> bool" where
  "lacks_envelope r =
     (case decoded r of
        Some (JObj kvs) \<Rightarrow> map_of kvs ''bustime-response'' = None
      | _ \<Rightarrow> False)"

definition no_vehicles_reply :: "response \<Rightarrow> bool" where
  "no_vehicles_reply r = (bind_err (envelope r) vehicles_of_response = Inr [])"

text \<open>A response from which \<^verbatim>\<open>get_predictions\<close> returns, whatever it returns.\<close>

definition yields_predictions :: "response \<Rightarrow> bool" where
  "yields_predictions r =
     (case bind_err (envelope r) predictions_of_response of Inl e \<Rightarrow> False | Inr ps \<Rightarrow> True)"

definition is_arrival :: "json \<Rightarrow> bool" where
  "is_arrival p = (subscript p ''typ'' = Inr (JStr ''A''))"

text \<open>An entry with a type code and, when that is \<^verbatim>\<open>A\<close>, with the six fields read from it.\<close>

definition well_formed_entry :: "json \<Rightarrow> bool" where
  "well_formed_entry p =
     (case subscript p ''typ'' of
        Inl e \<Rightarrow> False
      | Inr t \<Rightarrow> t = JStr ''A'' \<longrightarrow> (case prediction_of p of Inl e \<Rightarrow> False | Inr r \<Rightarrow> True))"

subsection \<open>The groups of the spec\<close>

text \<open>
  The spec's words, not the code's loop: the identifiers are cut into consecutive groups
  of at most \<open>n\<close>, in input order, the last one possibly smaller. \<open>ids_text\<close> is the
  \<^verbatim>\<open>vid\<close> parameter of a group.
\<close>

function consecutive_groups :: "nat \<Rightarrow> 'a list \<Rightarrow> 'a list list" where
  "consecutive_groups n xs =
     (if n = 0 \<or> xs = [] then [] else take n xs # consecutive_groups n (drop n xs))"
  by pat_completeness auto
termination
  by (relation "measure (\<lambda>(n, xs). length xs)") auto

definition ids_text :: "(json \<Rightarrow> string) \<Rightarrow> vehicle list \<Rightarrow> string" where
  "ids_text repr g = join '','' (map (\<lambda>v. py_str repr (v_id v)) g)"

subsection \<open>The files written\<close>

text \<open>
  A record, and a buffer, whose cells are all a \<^verbatim>\<open>str\<close> or an \<^verbatim>\<open>int\<close> of 64 bits. The records
  of a table; the vehicle tables and the prediction tables among the files written (those
  built from such buffers), in the order of writing; \<open>growing\<close>: each table holds the
  records of every table before it. \<open>snapshots_ok\<close> is the invariant of both loops behind
  it.
\<close>

definition exact_vehicles :: "vehicle list \<Rightarrow> bool" where
  "exact_vehicles vs = list_all (\<lambda>v. list_all exact_cell (vehicle_cells v)) vs"

definition exact_predictions :: "prediction list \<Rightarrow> bool" where
  "exact_predictions ps = list_all (\<lambda>p. list_all exact_cell (prediction_cells p)) ps"

definition rows :: "'a frame \<Rightarrow> 'a set" where
  "rows df = set (map snd df)"

fun vehicle_tables :: "(string \<times> table) list \<Rightarrow> vehicle frame list" where
  "vehicle_tables [] = []"
| "vehicle_tables ((name, VehicleTable df) # w) = df # vehicle_tables w"
| "vehicle_tables ((name, t) # w) = vehicle_tables w"

fun prediction_tables :: "(string \<times> table) list \<Rightarrow> prediction frame list" where
  "prediction_tables [] = []"
| "prediction_tables ((name, PredictionTable df) # w) = df # prediction_tables w"
| "prediction_tables ((name, t) # w) = prediction_tables w"




definition predictions_file :: "int \<Rightarrow> string" where
  "predictions_file now = ''predictions'' @ str_int now @ ''.csv''"

definition vehicles_file :: "int \<Rightarrow> string" where
  "vehicles_file now = ''vehicles'' @ str_int now @ ''.csv''"

subsection \<open>Sample services, responses and records\<close>

text \<open>
  A service that gives the same response to every request, and one that gives another
  response at a single call; a response with HTTP 500, one with status 200 and no envelope,
  one with status 204, and one with a vehicle, an arrival and a departure; sample records.
  In the samples every vehicle id is a \<^verbatim>\<open>str\<close>, so \<open>repr_unused\<close> stands where the text of
  lists and dicts would be asked for, and no table leaves the first two cases of the
  pandas stage, so \<open>never_raises\<close> stands for \<open>pandas\<close>.
\<close>

definition never_raises :: pandas where
  "never_raises cells = None"

definition constant_service :: "response \<Rightarrow> transport" where
  "constant_service r = (\<lambda>k req. r)"

definition outage_reply :: response where
  "outage_reply = \<lparr>status_code = 500, decoded = None\<rparr>"

definition reply_at :: "nat \<Rightarrow> response \<Rightarrow> response \<Rightarrow> transport" where
  "reply_at n r ok = (\<lambda>k req. if k = n then r else ok)"

definition outage_at :: "nat \<Rightarrow> response \<Rightarrow> transport" where
  "outage_at n ok = reply_at n outage_reply ok"

definition no_envelope_reply :: response where
  "no_envelope_reply = \<lparr>status_code = 200, decoded = Some (JObj [(''message'', JStr ''busy'')])\<rparr>"

definition no_content_reply :: response where
  "no_content_reply = \<lparr>status_code = 204, decoded = None\<rparr>"

definition repr_unused :: "json \<Rightarrow> string" where
  "repr_unused j = []"

definition sample_entry :: "string \<Rightarrow> string \<Rightarrow> json" where
  "sample_entry typ vid = JObj [(''tmstmp'', JStr ''20210301 10:00:05''), (''typ'', JStr typ),
     (''stpid'', JStr ''7117''), (''vid'', JStr vid), (''prdtm'', JStr ''20210301 10:04:00''),
     (''tatripid'', JStr ''1044''), (''dstp'', JInt 2210)]"

definition sample_prediction :: "string \<Rightarrow> prediction" where
  "sample_prediction vid = \<lparr>p_timestamp = JStr ''20210301 10:00:05'', p_stop_id = JStr ''7117'',
     p_vehicle_id = JStr vid, p_predicted_time = JStr ''20210301 10:04:00'',
     p_trip_id = JStr ''1044'', p_distance_to_stop = JInt 2210\<rparr>"

definition predictions_reply :: "json list \<Rightarrow> response" where
  "predictions_reply entries = \<lparr>status_code = 200,
     decoded = Some (JObj [(''bustime-response'', JObj [(''prd'', JList entries)])])\<rparr>"

definition sample_raw_vehicle :: "string \<Rightarrow> string \<Rightarrow> json" where
  "sample_raw_vehicle vid tm = JObj [(''vid'', JStr vid), (''tmstmp'', JStr tm),
     (''lat'', JStr ''40.44''), (''lon'', JStr ''-79.99''), (''hdg'', JStr ''270''),
     (''pid'', JInt 4521), (''rt'', JStr ''61A''), (''des'', JStr ''Downtown''),
     (''pdist'', JInt 1200), (''spd'', JInt 17), (''tatripid'', JStr ''1044''),
     (''psgld'', JStr ''EMPTY'')]"

definition sample_vehicle :: "string \<Rightarrow> string \<Rightarrow> vehicle" where
  "sample_vehicle vid tm = \<lparr>v_id = JStr vid, v_timestamp = JStr tm, v_lat = JStr ''40.44'',
     v_lon = JStr ''-79.99'', v_destination = JStr ''Downtown'', v_pattern_id = JInt 4521,
     v_pattern_distance = JInt 1200, v_trip_id = JStr ''1044'', v_speed = JInt 17,
     v_passenger_load = JStr ''EMPTY''\<rparr>"

definition full_reply :: response where
  "full_reply = \<lparr>status_code = 200, decoded = Some (JObj [(''bustime-response'',
     JObj [(''vehicle'', JList [sample_raw_vehicle ''3301'' ''20210301 10:00:00'']),
           (''prd'', JList [sample_entry ''A'' ''3301'', sample_entry ''D'' ''3301''])])])\<rparr>"

definition fleet :: "nat \<Rightarrow> vehicle list" where
  "fleet n = map (\<lambda>k. sample_vehicle (digits10 k) ''20210301 10:00:00'') [1..<Suc n]"

definition bus :: vehicle where
  "bus = sample_vehicle ''3301'' ''20210301 10:00:00''"

definition slower :: "vehicle \<Rightarrow> vehicle" where
  "slower v = v\<lparr>v_speed := JInt 16\<rparr>"

definition buffered :: "vehicle list \<Rightarrow> state" where
  "buffered vs = (init_state None)\<lparr>vehicles := vs\<rparr>"


text \<open>
  What the service answers when no bus of the requested routes is running: the envelope
  holds an \<^verbatim>\<open>error\<close> entry and no \<^verbatim>\<open>vehicle\<close> entry.
\<close>

definition no_service_reply :: response where
  "no_service_reply = \<lparr>status_code = 200, decoded = Some (JObj [(''bustime-response'',
     JObj [(''error'', JList [JObj [(''rt'', JStr ''61A''),
        (''msg'', JStr ''No data found for parameter'')]])])])\<rparr>"

section \<open>The API layer\<close>

lemma inject_state [simp]:
  "inject (st\<lparr>dicts := d, fresh := f\<rparr>) = inject st"
  by (simp add: inject_def fun_eq_iff)

lemma get_vehicles_eq:
  "get_vehicles net route_ids st =
     (bind_err (envelope (call_reply net VEHICLES_ENDPOINT ''rt'' route_ids st)) vehicles_of_response,
      after_call VEHICLES_ENDPOINT ''rt'' route_ids st)"
  by (simp add: get_vehicles_def new_params_def query_api_def Let_def envelope_def call_reply_def
      call_request_def after_call_def)

lemma get_predictions_eq:
  "get_predictions net vehicle_ids st =
     (bind_err (envelope (call_reply net PREDICTIONS_ENDPOINT ''vid'' vehicle_ids st)) predictions_of_response,
      after_call PREDICTIONS_ENDPOINT ''vid'' vehicle_ids st)"
  by (simp add: get_predictions_def new_params_def query_api_def Let_def envelope_def call_reply_def
      call_request_def after_call_def)

lemma arrivals_char:
  "arrivals raw = Inr ps \<Longrightarrow> map Inr ps = map prediction_of (filter is_arrival raw)"
proof (induction raw arbitrary: ps)
  case Nil
  then show ?case by simp
next
  case (Cons p raw)
  show ?case
  proof (cases "subscript p ''typ''")
    case (Inl e)
    with Cons.prems show ?thesis by simp
  next
    case (Inr t)
    show ?thesis
    proof (cases "t = JStr ''A''")
      case False
      with Inr Cons show ?thesis by (simp add: is_arrival_def)
    next
      case True
      with Inr Cons.prems obtain r rs where
        "prediction_of p = Inr r" "arrivals raw = Inr rs" "ps = r # rs"
        by (cases "prediction_of p"; cases "arrivals raw") auto
      with True Inr Cons.IH show ?thesis by (simp add: is_arrival_def)
    qed
  qed
qed

declare consecutive_groups.simps [simp del]
declare predictions_from.simps [simp del]

lemma consecutive_groups_Nil [simp]: "consecutive_groups n [] = []"
  by (simp add: consecutive_groups.simps)

lemma consecutive_groups_step:
  "0 < n \<Longrightarrow> xs \<noteq> [] \<Longrightarrow> consecutive_groups n xs = take n xs # consecutive_groups n (drop n xs)"
  by (subst consecutive_groups.simps) simp

lemma concat_consecutive_groups: "0 < n \<Longrightarrow> concat (consecutive_groups n xs) = xs"
proof (induction n xs rule: consecutive_groups.induct)
  case (1 n xs)
  show ?case
  proof (cases "xs = []")
    case True
    then show ?thesis by simp
  next
    case False
    with 1 show ?thesis by (simp add: consecutive_groups_step)
  qed
qed

lemma consecutive_groups_sizes:
  "0 < n \<Longrightarrow> g \<in> set (consecutive_groups n xs) \<Longrightarrow> 0 < length g \<and> length g \<le> n"
proof (induction n xs rule: consecutive_groups.induct)
  case (1 n xs)
  show ?case
  proof (cases "xs = []")
    case True
    with 1 show ?thesis by simp
  next
    case False
    with 1 show ?thesis by (auto simp add: consecutive_groups_step)
  qed
qed

lemma consecutive_groups_full:
  "0 < n \<Longrightarrow> g \<in> set (butlast (consecutive_groups n xs)) \<Longrightarrow> length g = n"
proof (induction n xs rule: consecutive_groups.induct)
  case (1 n xs)
  show ?case
  proof (cases "xs = []")
    case True
    with 1 show ?thesis by simp
  next
    case False
    note ne = this
    show ?thesis
    proof (cases "drop n xs = []")
      case True
      with 1 ne show ?thesis by (simp add: consecutive_groups_step)
    next
      case False
      then have "consecutive_groups n (drop n xs) \<noteq> []"
        using 1(2) by (simp add: consecutive_groups_step)
      with 1 ne False show ?thesis
        by (auto simp add: consecutive_groups_step)
    qed
  qed
qed

lemma length_consecutive_groups:
  "0 < n \<Longrightarrow> length (consecutive_groups n xs) = (length xs + (n - 1)) div n"
proof (induction n xs rule: consecutive_groups.induct)
  case (1 n xs)
  show ?case
  proof (cases "xs = []")
    case True
    with 1 show ?thesis by simp
  next
    case False
    show ?thesis
    proof (cases "length xs \<le> n")
      case True
      from False have len: "Suc 0 \<le> length xs" by (cases xs) simp_all
      from len 1(2) have lo: "n * 1 \<le> length xs + (n - 1)" by arith
      from True 1(2) have hi: "length xs + (n - 1) < n * Suc 1" by arith
      from lo hi have "(length xs + (n - 1)) div n = 1" by (rule div_nat_eqI)
      with True False 1 show ?thesis by (simp add: consecutive_groups_step)
    next
      case gt: False
      then have eq: "length xs + (n - 1) = (length xs - n + (n - 1)) + n" by simp
      from 1(2) have "((length xs - n + (n - 1)) + n) div n = (length xs - n + (n - 1)) div n + 1"
        by (intro div_add_self2) simp
      with eq have d: "(length xs + (n - 1)) div n = Suc ((length xs - n + (n - 1)) div n)"
        by simp
      from False 1(2) have "length (consecutive_groups n xs) = Suc (length (consecutive_groups n (drop n xs)))"
        by (simp add: consecutive_groups_step)
      also from False 1 have "length (consecutive_groups n (drop n xs)) = (length xs - n + (n - 1)) div n"
        by simp
      finally show ?thesis using d by simp
    qed
  qed
qed

lemma key_after_call [simp]:
  "BUSTIME_API_KEY (after_call e k v st) = BUSTIME_API_KEY st"
  "sent (after_call e k v st) = sent st @ [call_request e k v st]"
  "CALLS_COUNT (after_call e k v st) = CALLS_COUNT st + 1"
  by (simp_all add: after_call_def)

lemma call_request_key:
  "BUSTIME_API_KEY st' = BUSTIME_API_KEY st \<Longrightarrow> call_request e k v st' = call_request e k v st"
  by (simp add: call_request_def inject_def)

lemma call_request_after_call [simp]:
  "call_request e k v (after_call e' k' v' st) = call_request e k v st"
  by (rule call_request_key) simp

lemma group_ids_eq: "group_ids repr vs i = ids_text repr (take 10 (drop i vs))"
  by (simp add: group_ids_def ids_text_def slice_def min_def drop_take)

lemma predictions_from_returns:
  "predictions_from repr net vs i tp st = (Inr out, st') \<Longrightarrow>
     BUSTIME_API_KEY st' = BUSTIME_API_KEY st \<and>
     sent st' = sent st @ map (\<lambda>g. call_request PREDICTIONS_ENDPOINT ''vid'' (ids_text repr g) st)
                  (consecutive_groups 10 (drop i vs)) \<and>
     CALLS_COUNT st' = CALLS_COUNT st + int (length (consecutive_groups 10 (drop i vs)))"
proof (induction repr net vs i tp st rule: predictions_from.induct)
  case (1 repr net vs i tp st)
  show ?case
  proof (cases "i < length vs")
    case False
    with 1(2) show ?thesis by (simp add: predictions_from.simps)
  next
    case True
    let ?st1 = "after_call PREDICTIONS_ENDPOINT ''vid'' (group_ids repr vs i) st"
    obtain r where r: "get_predictions net (group_ids repr vs i) st = (r, ?st1)"
      by (simp add: get_predictions_eq)
    with True 1(2) obtain ps where ps: "r = Inr ps"
      and rest: "predictions_from repr net vs (i + 10) (tp @ ps) ?st1 = (Inr out, st')"
      by (cases r) (auto simp add: predictions_from.simps [of repr net vs i])
    from 1(1) [OF True _ _ rest] r ps
    have ih: "BUSTIME_API_KEY st' = BUSTIME_API_KEY ?st1 \<and>
       sent st' = sent ?st1 @ map (\<lambda>g. call_request PREDICTIONS_ENDPOINT ''vid'' (ids_text repr g) ?st1)
                  (consecutive_groups 10 (drop (i + 10) vs)) \<and>
       CALLS_COUNT st' = CALLS_COUNT ?st1 + int (length (consecutive_groups 10 (drop (i + 10) vs)))"
      by simp
    have step: "consecutive_groups 10 (drop i vs) = take 10 (drop i vs) # consecutive_groups 10 (drop (i + 10) vs)"
      using True by (simp add: consecutive_groups_step add.commute)
    from ih show ?thesis
      by (simp add: step group_ids_eq)
  qed
qed

lemma query_api_result: "fst (query_api net ep pa st) = envelope (query_reply net ep pa st)"
  by (simp add: query_api_def Let_def envelope_def query_reply_def query_request_def)

lemma query_api_state:
  "snd (query_api net ep pa st) =
     st\<lparr>CALLS_COUNT := CALLS_COUNT st + 1,
        dicts := (dicts st)((case pa of None \<Rightarrow> default_params | Some a \<Rightarrow> a) :=
                   query (query_request ep pa st)),
        sent := sent st @ [query_request ep pa st]\<rparr>"
  by (simp add: query_api_def Let_def query_request_def)

lemma envelope_missing_key:
  "status_code r = 200 \<Longrightarrow> lacks_envelope r \<Longrightarrow> envelope r = Inl KeyError"
  by (auto simp add: envelope_def lacks_envelope_def json_loads_def
      split: option.splits json.splits)

lemma envelope_not_200: "status_code r \<noteq> 200 \<Longrightarrow> envelope r = Inr JNull"
  by (simp add: envelope_def)

lemma length_23_groups:
  assumes "length vs = 23"
  shows "map length (consecutive_groups 10 vs) = [10, 10, 3]"
proof -
  from assms have a: "vs \<noteq> []" by auto
  from assms have b: "drop 10 vs \<noteq> []" by simp
  from assms have c: "drop 10 (drop 10 vs) \<noteq> []" by simp
  from assms have d: "drop 10 (drop 10 (drop 10 vs)) = []" by simp
  have "consecutive_groups 10 vs =
      [take 10 vs, take 10 (drop 10 vs), take 10 (drop 10 (drop 10 vs))]"
    by (simp only: consecutive_groups_step [OF _ a] consecutive_groups_step [OF _ b]
        consecutive_groups_step [OF _ c] d consecutive_groups_Nil zero_less_numeral)
  with assms show ?thesis by simp
qed

lemma predictions_from_failed_group:
  assumes "i < length vs"
    and "status_code (call_reply net PREDICTIONS_ENDPOINT ''vid'' (group_ids repr vs i) st) \<noteq> 200"
  shows "predictions_from repr net vs i tp st =
         predictions_from repr net vs (i + 10) tp
           (after_call PREDICTIONS_ENDPOINT ''vid'' (group_ids repr vs i) st)"
  using assms
  by (subst predictions_from.simps)
     (simp add: get_predictions_eq envelope_def predictions_of_response_def)

lemma predictions_from_step:
  assumes "i < length vs"
    and "bind_err (envelope (call_reply net PREDICTIONS_ENDPOINT ''vid'' (group_ids repr vs i) st))
           predictions_of_response = Inr ps"
  shows "predictions_from repr net vs i tp st =
         predictions_from repr net vs (i + 10) (tp @ ps)
           (after_call PREDICTIONS_ENDPOINT ''vid'' (group_ids repr vs i) st)"
  using assms by (subst predictions_from.simps) (simp add: get_predictions_eq)

lemma predictions_from_abort:
  assumes "i < length vs"
    and "bind_err (envelope (call_reply net PREDICTIONS_ENDPOINT ''vid'' (group_ids repr vs i) st))
           predictions_of_response = Inl e"
  shows "predictions_from repr net vs i tp st =
         (Inl e, after_call PREDICTIONS_ENDPOINT ''vid'' (group_ids repr vs i) st)"
  using assms by (subst predictions_from.simps) (simp add: get_predictions_eq)

lemma failed_reply_empty:
  "status_code r \<noteq> 200 \<Longrightarrow> bind_err (envelope r) predictions_of_response = Inr []"
  by (simp add: envelope_not_200 predictions_of_response_def)

lemma predictions_from_sent:
  "\<exists>m \<le> length (consecutive_groups 10 (drop i vs)).
     sent (snd (predictions_from repr net vs i tp st)) =
       sent st @ map (\<lambda>g. call_request PREDICTIONS_ENDPOINT ''vid'' (ids_text repr g) st)
                  (take m (consecutive_groups 10 (drop i vs))) \<and>
     CALLS_COUNT (snd (predictions_from repr net vs i tp st)) = CALLS_COUNT st + int m \<and>
     BUSTIME_API_KEY (snd (predictions_from repr net vs i tp st)) = BUSTIME_API_KEY st"
proof (induction repr net vs i tp st rule: predictions_from.induct)
  case (1 repr net vs i tp st)
  let ?G = "consecutive_groups 10 (drop i vs)"
  show ?case
  proof (cases "i < length vs")
    case False
    then have "predictions_from repr net vs i tp st = (Inr tp, st)"
      by (simp add: predictions_from.simps)
    then show ?thesis by (intro exI [of _ 0]) simp
  next
    case True
    let ?st1 = "after_call PREDICTIONS_ENDPOINT ''vid'' (group_ids repr vs i) st"
    let ?r = "bind_err (envelope (call_reply net PREDICTIONS_ENDPOINT ''vid'' (group_ids repr vs i) st))
           predictions_of_response"
    have step: "?G = take 10 (drop i vs) # consecutive_groups 10 (drop (i + 10) vs)"
      using True by (simp add: consecutive_groups_step add.commute)
    show ?thesis
    proof (cases ?r)
      case (Inl e)
      from predictions_from_abort [OF True Inl]
      have "predictions_from repr net vs i tp st = (Inl e, ?st1)" .
      then show ?thesis
        by (intro exI [of _ 1]) (simp add: step group_ids_eq)
    next
      case (Inr ps)
      have g: "get_predictions net (group_ids repr vs i) st = (Inr ps, ?st1)"
        using Inr by (simp add: get_predictions_eq)
      from 1 [OF True g [symmetric] refl]
      obtain m where m: "m \<le> length (consecutive_groups 10 (drop (i + 10) vs))"
        and s: "sent (snd (predictions_from repr net vs (i + 10) (tp @ ps) ?st1)) =
          sent ?st1 @ map (\<lambda>g. call_request PREDICTIONS_ENDPOINT ''vid'' (ids_text repr g) ?st1)
                  (take m (consecutive_groups 10 (drop (i + 10) vs)))"
        and c: "CALLS_COUNT (snd (predictions_from repr net vs (i + 10) (tp @ ps) ?st1)) =
          CALLS_COUNT ?st1 + int m"
        and k: "BUSTIME_API_KEY (snd (predictions_from repr net vs (i + 10) (tp @ ps) ?st1)) =
          BUSTIME_API_KEY ?st1"
        by blast
      from m s c k show ?thesis
        unfolding predictions_from_step [OF True Inr]
        by (intro exI [of _ "Suc m"]) (simp add: step group_ids_eq)
    qed
  qed
qed

lemma predictions_from_total:
  "\<forall>k q. yields_predictions (net k q) \<Longrightarrow>
     \<exists>out. fst (predictions_from repr net vs i tp st) = Inr out"
proof (induction repr net vs i tp st rule: predictions_from.induct)
  case (1 repr net vs i tp st)
  note assms = 1(2)
  show ?case
  proof (cases "i < length vs")
    case False
    then show ?thesis by (simp add: predictions_from.simps)
  next
    case True
    let ?st1 = "after_call PREDICTIONS_ENDPOINT ''vid'' (group_ids repr vs i) st"
    from assms have "yields_predictions (call_reply net PREDICTIONS_ENDPOINT ''vid''
        (group_ids repr vs i) st)"
      by (simp add: call_reply_def)
    then obtain ps where ps: "bind_err (envelope (call_reply net PREDICTIONS_ENDPOINT ''vid''
        (group_ids repr vs i) st)) predictions_of_response = Inr ps"
      by (auto simp add: yields_predictions_def split: sum.splits)
    then have g: "get_predictions net (group_ids repr vs i) st = (Inr ps, ?st1)"
      by (simp add: get_predictions_eq)
    from 1(1) [OF True g [symmetric] refl assms] show ?thesis
      unfolding predictions_from_step [OF True ps] by simp
  qed
qed

text \<open>
  Claim C1, as stated, fails: with 23 vehicles and the second call answered with status 200
  and no \<^verbatim>\<open>bustime-response\<close> key, \<^verbatim>\<open>get_predictions_for_vehicles\<close> raises \<^verbatim>\<open>KeyError\<close> after
  two of the three calls, and the third group is never asked for.
\<close>

theorem group_call_raises_counterexample:
  "fst (get_predictions_for_vehicles repr_unused
         (reply_at 1 no_envelope_reply (predictions_reply [sample_entry ''A'' ''3'']))
         (fleet 23) (init_api None)) = Inl KeyError
   \<and> length (sent (snd (get_predictions_for_vehicles repr_unused
         (reply_at 1 no_envelope_reply (predictions_reply [sample_entry ''A'' ''3'']))
         (fleet 23) (init_api None)))) = 2
   \<and> (length (fleet 23) + 9) div 10 = 3"
  by (intro conjI) code_simp+

text \<open>
  Claim C1, amended. Let \<open>N\<close> be the number of vehicles. The groups of the spec, consecutive
  runs of at most 10 vehicles, concatenate to the input in its order, are non-empty and at
  most 10 long, all but the last exactly 10 long, number \<open>(N + 9) div 10\<close>, the ceiling of
  \<open>N / 10\<close>, and for 23 vehicles have the sizes 10, 10 and 3.
  \<^verbatim>\<open>get_predictions_for_vehicles\<close> sends one request per group, in order, each with the
  group's comma-joined ids as \<^verbatim>\<open>vid\<close>, until a call raises: the requests sent, and the growth
  of the call counter, are always those of the first \<open>m\<close> groups for some \<open>m\<close>, and of all
  the groups whenever it returns; it returns when every response is one from which
  \<^verbatim>\<open>get_predictions\<close> returns. A group whose call comes back with a status other than 200
  adds nothing to the result, any group from whose response \<^verbatim>\<open>get_predictions\<close> returns adds
  what that returns, and in both cases the loop goes on with the next group; a group whose
  call raises ends the loop with that exception, the remaining groups unasked.
\<close>

theorem get_predictions_for_vehicles_calls:
  "concat (consecutive_groups 10 vs) = vs
   \<and> (\<forall>g \<in> set (consecutive_groups 10 vs). 0 < length g \<and> length g \<le> 10)
   \<and> (\<forall>g \<in> set (butlast (consecutive_groups 10 vs)). length g = 10)
   \<and> length (consecutive_groups 10 vs) = (length vs + 9) div 10
   \<and> (length vs = 23 \<longrightarrow> map length (consecutive_groups 10 vs) = [10, 10, 3])
   \<and> (\<exists>m \<le> (length vs + 9) div 10.
         sent (snd (get_predictions_for_vehicles repr net vs st)) =
           sent st @ map (\<lambda>g. call_request PREDICTIONS_ENDPOINT ''vid'' (ids_text repr g) st)
                       (take m (consecutive_groups 10 vs)) \<and>
         CALLS_COUNT (snd (get_predictions_for_vehicles repr net vs st)) =
           CALLS_COUNT st + int m)
   \<and> (\<forall>out. fst (get_predictions_for_vehicles repr net vs st) = Inr out \<longrightarrow>
         sent (snd (get_predictions_for_vehicles repr net vs st)) =
           sent st @ map (\<lambda>g. call_request PREDICTIONS_ENDPOINT ''vid'' (ids_text repr g) st)
                       (consecutive_groups 10 vs) \<and>
         length (sent (snd (get_predictions_for_vehicles repr net vs st))) =
           length (sent st) + (length vs + 9) div 10 \<and>
         CALLS_COUNT (snd (get_predictions_for_vehicles repr net vs st)) =
           CALLS_COUNT st + int ((length vs + 9) div 10))
   \<and> ((\<forall>k q. yields_predictions (net k q)) \<longrightarrow>
         (\<exists>out. fst (get_predictions_for_vehicles repr net vs st) = Inr out))
   \<and> (\<forall>i tp s. i < length vs \<and>
         status_code (call_reply net PREDICTIONS_ENDPOINT ''vid'' (group_ids repr vs i) s) \<noteq> 200
         \<longrightarrow> predictions_from repr net vs i tp s =
             predictions_from repr net vs (i + 10) tp
               (after_call PREDICTIONS_ENDPOINT ''vid'' (group_ids repr vs i) s))
   \<and> (\<forall>i tp s ps. i < length vs \<and>
         bind_err (envelope (call_reply net PREDICTIONS_ENDPOINT ''vid'' (group_ids repr vs i) s))
           predictions_of_response = Inr ps
         \<longrightarrow> predictions_from repr net vs i tp s =
             predictions_from repr net vs (i + 10) (tp @ ps)
               (after_call PREDICTIONS_ENDPOINT ''vid'' (group_ids repr vs i) s))
   \<and> (\<forall>i tp s e. i < length vs \<and>
         bind_err (envelope (call_reply net PREDICTIONS_ENDPOINT ''vid'' (group_ids repr vs i) s))
           predictions_of_response = Inl e
         \<longrightarrow> predictions_from repr net vs i tp s =
             (Inl e, after_call PREDICTIONS_ENDPOINT ''vid'' (group_ids repr vs i) s))"
proof -
  let ?R = "get_predictions_for_vehicles repr net vs st"
  let ?req = "\<lambda>g. call_request PREDICTIONS_ENDPOINT ''vid'' (ids_text repr g) st"
  have n: "length (consecutive_groups 10 vs) = (length vs + 9) div 10"
    by (simp add: length_consecutive_groups)
  have p1: "concat (consecutive_groups 10 vs) = vs"
    by (simp add: concat_consecutive_groups)
  have p2: "\<forall>g \<in> set (consecutive_groups 10 vs). 0 < length g \<and> length g \<le> 10"
    using consecutive_groups_sizes [of 10 _ vs] by auto
  have p3: "\<forall>g \<in> set (butlast (consecutive_groups 10 vs)). length g = 10"
    using consecutive_groups_full [of 10 _ vs] by auto
  have p4: "length vs = 23 \<longrightarrow> map length (consecutive_groups 10 vs) = [10, 10, 3]"
    using length_23_groups by blast
  have p5: "\<exists>m \<le> (length vs + 9) div 10.
         sent (snd ?R) = sent st @ map ?req (take m (consecutive_groups 10 vs)) \<and>
         CALLS_COUNT (snd ?R) = CALLS_COUNT st + int m"
    using predictions_from_sent [of 0 vs repr net "[]" st]
    by (auto simp add: get_predictions_for_vehicles_def n)
  have p6: "\<forall>out. fst ?R = Inr out \<longrightarrow>
         sent (snd ?R) = sent st @ map ?req (consecutive_groups 10 vs) \<and>
         length (sent (snd ?R)) = length (sent st) + (length vs + 9) div 10 \<and>
         CALLS_COUNT (snd ?R) = CALLS_COUNT st + int ((length vs + 9) div 10)"
  proof (intro allI impI)
    fix out assume "fst ?R = Inr out"
    then have "predictions_from repr net vs 0 [] st = (Inr out, snd ?R)"
      by (simp add: get_predictions_for_vehicles_def prod_eq_iff)
    from predictions_from_returns [OF this]
    show "sent (snd ?R) = sent st @ map ?req (consecutive_groups 10 vs) \<and>
         length (sent (snd ?R)) = length (sent st) + (length vs + 9) div 10 \<and>
         CALLS_COUNT (snd ?R) = CALLS_COUNT st + int ((length vs + 9) div 10)"
      by (simp add: n)
  qed
  have p7: "(\<forall>k q. yields_predictions (net k q)) \<longrightarrow> (\<exists>out. fst ?R = Inr out)"
    using predictions_from_total [of net repr vs 0 "[]" st]
    by (simp add: get_predictions_for_vehicles_def)
  have p8: "\<forall>i tp s. i < length vs \<and>
         status_code (call_reply net PREDICTIONS_ENDPOINT ''vid'' (group_ids repr vs i) s) \<noteq> 200
         \<longrightarrow> predictions_from repr net vs i tp s =
             predictions_from repr net vs (i + 10) tp
               (after_call PREDICTIONS_ENDPOINT ''vid'' (group_ids repr vs i) s)"
    using predictions_from_failed_group by blast
  have p9: "\<forall>i tp s ps. i < length vs \<and>
         bind_err (envelope (call_reply net PREDICTIONS_ENDPOINT ''vid'' (group_ids repr vs i) s))
           predictions_of_response = Inr ps
         \<longrightarrow> predictions_from repr net vs i tp s =
             predictions_from repr net vs (i + 10) (tp @ ps)
               (after_call PREDICTIONS_ENDPOINT ''vid'' (group_ids repr vs i) s)"
    using predictions_from_step by blast
  have p10: "\<forall>i tp s e. i < length vs \<and>
         bind_err (envelope (call_reply net PREDICTIONS_ENDPOINT ''vid'' (group_ids repr vs i) s))
           predictions_of_response = Inl e
         \<longrightarrow> predictions_from repr net vs i tp s =
             (Inl e, after_call PREDICTIONS_ENDPOINT ''vid'' (group_ids repr vs i) s)"
    using predictions_from_abort by blast
  show ?thesis
    by (intro conjI) (rule p1 p2 p3 n p4 p5 p6 p7 p8 p9 p10)+
qed

text \<open>
  Twenty-three vehicles, the second of the three calls answered with HTTP 500 and the other
  two with one arrival and one departure: the result holds the two arrivals.
\<close>

theorem get_predictions_for_vehicles_calls_witness:
  "fst (get_predictions_for_vehicles repr_unused
         (outage_at 1 (predictions_reply [sample_entry ''A'' ''3'', sample_entry ''D'' ''4'']))
         (fleet 23) (init_api None)) = Inr [sample_prediction ''3'', sample_prediction ''3'']
   \<and> length (fleet 23) = 23
   \<and> map length (consecutive_groups 10 (fleet 23)) = [10, 10, 3]
   \<and> length (sent (snd (get_predictions_for_vehicles repr_unused
         (outage_at 1 (predictions_reply [sample_entry ''A'' ''3'', sample_entry ''D'' ''4'']))
         (fleet 23) (init_api None)))) = 3
   \<and> CALLS_COUNT (snd (get_predictions_for_vehicles repr_unused
         (outage_at 1 (predictions_reply [sample_entry ''A'' ''3'', sample_entry ''D'' ''4'']))
         (fleet 23) (init_api None))) = 3"
proof -
  let ?net = "outage_at 1 (predictions_reply [sample_entry ''A'' ''3'', sample_entry ''D'' ''4''])"
  let ?R = "get_predictions_for_vehicles repr_unused ?net (fleet 23) (init_api None)"
  have h: "fst ?R = Inr [sample_prediction ''3'', sample_prediction ''3'']"
    by code_simp
  have l: "length (fleet 23) = 23" by (simp add: fleet_def)
  have s0: "length (sent (init_api None)) = 0" "CALLS_COUNT (init_api None) = 0"
    by (simp_all add: init_api_def)
  note t = get_predictions_for_vehicles_calls [of "fleet 23" repr_unused ?net "init_api None"]
  from t l have g: "map length (consecutive_groups 10 (fleet 23)) = [10, 10, 3]"
    by blast
  note r = t [THEN conjunct2, THEN conjunct2, THEN conjunct2, THEN conjunct2, THEN conjunct2,
      THEN conjunct2, THEN conjunct1, THEN spec, THEN mp, OF h]
  from r [THEN conjunct2, THEN conjunct1] l s0
  have c: "length (sent (snd ?R)) = 3" by simp
  from r [THEN conjunct2, THEN conjunct2] l s0
  have k: "CALLS_COUNT (snd ?R) = 3" by simp
  show ?thesis
    by (intro conjI) (rule h l g c k)+
qed

lemma arrivals_total:
  "list_all well_formed_entry raw \<Longrightarrow> \<exists>ps. arrivals raw = Inr ps"
proof (induction raw)
  case Nil
  then show ?case by simp
next
  case (Cons p raw)
  then obtain ps where ps: "arrivals raw = Inr ps" by auto
  from Cons.prems have wf: "well_formed_entry p" by simp
  then obtain t where t: "subscript p ''typ'' = Inr t"
    by (cases "subscript p ''typ''") (simp_all add: well_formed_entry_def)
  show ?case
  proof (cases "t = JStr ''A''")
    case False
    with t ps show ?thesis by simp
  next
    case True
    with wf t obtain r where "prediction_of p = Inr r"
      by (cases "prediction_of p") (simp_all add: well_formed_entry_def)
    with True t ps show ?thesis by simp
  qed
qed

lemma subscript_contains:
  assumes "subscript j k = Inr v"
  shows "contains j k = Inr True \<and> j \<noteq> JNull"
proof (cases j)
  case (JObj kvs)
  with assms have "map_of kvs k \<noteq> None" by (auto split: option.splits)
  then have "k \<in> fst ` set kvs" by (simp add: map_of_eq_None_iff)
  with JObj show ?thesis by simp
qed (use assms in simp_all)

lemma predictions_of_response_prd:
  "subscript resp ''prd'' = Inr raw \<Longrightarrow>
     predictions_of_response resp = bind_err (py_iter raw) arrivals"
  using subscript_contains [of resp "''prd''" raw]
  by (simp add: predictions_of_response_def)

text \<open>
  Claim C5. Take a call of \<^verbatim>\<open>get_predictions\<close> whose response carries a \<^verbatim>\<open>prd\<close> field, and
  let \<open>entries\<close> be what iterating over that field yields. If every entry has a type code and
  every entry of type \<^verbatim>\<open>A\<close> has the six fields, the call returns; and whenever it returns, the
  records returned are, in order, exactly those built from the entries whose type code
  equals \<^verbatim>\<open>'A'\<close>: entries of any other type are dropped when the response is read.
\<close>

theorem get_predictions_arrivals_only:
  assumes "envelope (call_reply net PREDICTIONS_ENDPOINT ''vid'' ids st) = Inr resp"
    and "subscript resp ''prd'' = Inr raw"
    and "py_iter raw = Inr entries"
  shows "(list_all well_formed_entry entries \<longrightarrow>
           (\<exists>ps. fst (get_predictions net ids st) = Inr ps))
    \<and> (\<forall>ps. fst (get_predictions net ids st) = Inr ps \<longrightarrow>
           map Inr ps = map prediction_of (filter is_arrival entries))"
proof -
  from assms have "fst (get_predictions net ids st) = arrivals entries"
    by (simp add: get_predictions_eq predictions_of_response_prd)
  then show ?thesis
    using arrivals_total [of entries] arrivals_char [of entries] by auto
qed

text \<open>A response with two arrivals and, between them, a departure.\<close>

theorem get_predictions_arrivals_only_witness:
  "envelope (call_reply (constant_service (predictions_reply
       [sample_entry ''A'' ''3'', sample_entry ''D'' ''4'', sample_entry ''A'' ''5'']))
       PREDICTIONS_ENDPOINT ''vid'' ''3,4,5'' (init_api None))
     = Inr (JObj [(''prd'', JList [sample_entry ''A'' ''3'', sample_entry ''D'' ''4'',
         sample_entry ''A'' ''5''])])
   \<and> list_all well_formed_entry
        [sample_entry ''A'' ''3'', sample_entry ''D'' ''4'', sample_entry ''A'' ''5'']
   \<and> filter is_arrival [sample_entry ''A'' ''3'', sample_entry ''D'' ''4'', sample_entry ''A'' ''5'']
       = [sample_entry ''A'' ''3'', sample_entry ''A'' ''5'']
   \<and> fst (get_predictions (constant_service (predictions_reply
       [sample_entry ''A'' ''3'', sample_entry ''D'' ''4'', sample_entry ''A'' ''5'']))
       ''3,4,5'' (init_api None)) = Inr [sample_prediction ''3'', sample_prediction ''5'']"
proof -
  let ?es = "[sample_entry ''A'' ''3'', sample_entry ''D'' ''4'', sample_entry ''A'' ''5'']"
  let ?net = "constant_service (predictions_reply ?es)"
  have e: "envelope (call_reply ?net PREDICTIONS_ENDPOINT ''vid'' ''3,4,5'' (init_api None))
      = Inr (JObj [(''prd'', JList ?es)])"
    by (simp add: envelope_def call_reply_def constant_service_def predictions_reply_def
        json_loads_def)
  have s: "subscript (JObj [(''prd'', JList ?es)]) ''prd'' = Inr (JList ?es)" by simp
  have i: "py_iter (JList ?es) = Inr ?es" by simp
  have w: "list_all well_formed_entry ?es"
    by (simp add: well_formed_entry_def sample_entry_def prediction_of_def)
  have f: "filter is_arrival ?es = [sample_entry ''A'' ''3'', sample_entry ''A'' ''5'']"
    by (simp add: is_arrival_def sample_entry_def)
  have p: "map prediction_of [sample_entry ''A'' ''3'', sample_entry ''A'' ''5'']
      = map Inr [sample_prediction ''3'', sample_prediction ''5'']"
    by (simp add: sample_entry_def prediction_of_def sample_prediction_def)
  note t = get_predictions_arrivals_only [OF e s i]
  from t w obtain ps where ps: "fst (get_predictions ?net ''3,4,5'' (init_api None)) = Inr ps"
    by blast
  with t have "map Inr ps = map prediction_of (filter is_arrival ?es)" by blast
  with f p have "map (Inr :: prediction \<Rightarrow> error + prediction) ps
      = map Inr [sample_prediction ''3'', sample_prediction ''5'']" by simp
  then have "ps = [sample_prediction ''3'', sample_prediction ''5'']"
    by (auto simp add: map_eq_Cons_conv)
  with e w f ps show ?thesis by blast
qed

text \<open>
  Claim C2, as stated, fails: a response with status 200 whose JSON object has no
  \<^verbatim>\<open>bustime-response\<close> key makes \<^verbatim>\<open>query_api\<close> raise \<^verbatim>\<open>KeyError\<close>, and \<^verbatim>\<open>get_vehicles\<close> and
  \<^verbatim>\<open>get_predictions\<close> pass the exception on instead of returning an empty list.
\<close>

theorem missing_envelope_counterexample:
  "success_2xx no_envelope_reply \<and> lacks_envelope no_envelope_reply
   \<and> fst (query_api (constant_service no_envelope_reply) VEHICLES_ENDPOINT None (init_api None))
       = Inl KeyError
   \<and> fst (get_vehicles (constant_service no_envelope_reply) ROUTE_ID_updates (init_api None))
       = Inl KeyError
   \<and> fst (get_predictions (constant_service no_envelope_reply) ''3,4,5'' (init_api None))
       = Inl KeyError
   \<and> CALLS_COUNT (snd (get_vehicles (constant_service no_envelope_reply) ROUTE_ID_updates
         (init_api None))) = 1"
  by (simp add: success_2xx_def lacks_envelope_def no_envelope_reply_def query_api_result
      get_vehicles_eq get_predictions_eq envelope_def query_reply_def call_reply_def
      constant_service_def json_loads_def init_api_def)

text \<open>
  Claim C2, amended. A response with status 200 whose decoded body is an object without the
  \<^verbatim>\<open>bustime-response\<close> key makes \<^verbatim>\<open>query_api\<close> raise \<^verbatim>\<open>KeyError\<close>, the call counted, and the
  exception passes through \<^verbatim>\<open>get_vehicles\<close> and \<^verbatim>\<open>get_predictions\<close>. A response with any
  status other than 200, the other 2xx codes included, is not decoded: \<^verbatim>\<open>query_api\<close>
  returns \<^verbatim>\<open>None\<close> and the two callers return an empty list, the call counted as well.
\<close>

theorem missing_envelope_raises:
  "(status_code (query_reply net ep pa st) = 200 \<and> lacks_envelope (query_reply net ep pa st)
      \<longrightarrow> fst (query_api net ep pa st) = Inl KeyError \<and>
          CALLS_COUNT (snd (query_api net ep pa st)) = CALLS_COUNT st + 1)
   \<and> (status_code (call_reply netv VEHICLES_ENDPOINT ''rt'' route_ids stv) = 200 \<and>
        lacks_envelope (call_reply netv VEHICLES_ENDPOINT ''rt'' route_ids stv)
      \<longrightarrow> fst (get_vehicles netv route_ids stv) = Inl KeyError \<and>
          CALLS_COUNT (snd (get_vehicles netv route_ids stv)) = CALLS_COUNT stv + 1)
   \<and> (status_code (call_reply netp PREDICTIONS_ENDPOINT ''vid'' vehicle_ids stp) = 200 \<and>
        lacks_envelope (call_reply netp PREDICTIONS_ENDPOINT ''vid'' vehicle_ids stp)
      \<longrightarrow> fst (get_predictions netp vehicle_ids stp) = Inl KeyError \<and>
          CALLS_COUNT (snd (get_predictions netp vehicle_ids stp)) = CALLS_COUNT stp + 1)
   \<and> (status_code (query_reply net' ep' pa' st') \<noteq> 200
      \<longrightarrow> fst (query_api net' ep' pa' st') = Inr JNull \<and>
          CALLS_COUNT (snd (query_api net' ep' pa' st')) = CALLS_COUNT st' + 1)
   \<and> (status_code (call_reply netv' VEHICLES_ENDPOINT ''rt'' route_ids' stv') \<noteq> 200
      \<longrightarrow> fst (get_vehicles netv' route_ids' stv') = Inr [] \<and>
          CALLS_COUNT (snd (get_vehicles netv' route_ids' stv')) = CALLS_COUNT stv' + 1)
   \<and> (status_code (call_reply netp' PREDICTIONS_ENDPOINT ''vid'' vehicle_ids' stp') \<noteq> 200
      \<longrightarrow> fst (get_predictions netp' vehicle_ids' stp') = Inr [] \<and>
          CALLS_COUNT (snd (get_predictions netp' vehicle_ids' stp')) = CALLS_COUNT stp' + 1)"
  by (simp add: query_api_result query_api_state get_vehicles_eq get_predictions_eq
      envelope_missing_key envelope_not_200 vehicles_of_response_def predictions_of_response_def)

text \<open>Status 200 without the envelope, and status 204.\<close>

theorem missing_envelope_raises_witness:
  "status_code (query_reply (constant_service no_envelope_reply) VEHICLES_ENDPOINT None
       (init_api None)) = 200
   \<and> lacks_envelope (query_reply (constant_service no_envelope_reply) VEHICLES_ENDPOINT None
       (init_api None))
   \<and> fst (query_api (constant_service no_envelope_reply) VEHICLES_ENDPOINT None (init_api None))
       = Inl KeyError
   \<and> CALLS_COUNT (snd (query_api (constant_service no_envelope_reply) VEHICLES_ENDPOINT None
       (init_api None))) = CALLS_COUNT (init_api None) + 1
   \<and> fst (get_vehicles (constant_service no_envelope_reply) ROUTE_ID_predictions (init_api None))
       = Inl KeyError
   \<and> CALLS_COUNT (snd (get_vehicles (constant_service no_envelope_reply) ROUTE_ID_predictions
       (init_api None))) = CALLS_COUNT (init_api None) + 1
   \<and> fst (get_predictions (constant_service no_envelope_reply) ''3,4,5'' (init_api None))
       = Inl KeyError
   \<and> success_2xx no_content_reply
   \<and> status_code (query_reply (constant_service no_content_reply) VEHICLES_ENDPOINT None
       (init_api None)) \<noteq> 200
   \<and> fst (query_api (constant_service no_content_reply) VEHICLES_ENDPOINT None (init_api None))
       = Inr JNull
   \<and> fst (get_vehicles (constant_service no_content_reply) ROUTE_ID_predictions (init_api None))
       = Inr []
   \<and> fst (get_predictions (constant_service no_content_reply) ''3,4,5'' (init_api None))
       = Inr []"
proof -
  let ?bad = "constant_service no_envelope_reply"
  let ?none = "constant_service no_content_reply"
  have q: "query_reply ?bad VEHICLES_ENDPOINT None (init_api None) = no_envelope_reply"
    "call_reply ?bad VEHICLES_ENDPOINT ''rt'' ROUTE_ID_predictions (init_api None) = no_envelope_reply"
    "call_reply ?bad PREDICTIONS_ENDPOINT ''vid'' ''3,4,5'' (init_api None) = no_envelope_reply"
    "query_reply ?none VEHICLES_ENDPOINT None (init_api None) = no_content_reply"
    "call_reply ?none VEHICLES_ENDPOINT ''rt'' ROUTE_ID_predictions (init_api None) = no_content_reply"
    "call_reply ?none PREDICTIONS_ENDPOINT ''vid'' ''3,4,5'' (init_api None) = no_content_reply"
    by (simp_all add: query_reply_def call_reply_def constant_service_def)
  have b: "status_code no_envelope_reply = 200" "lacks_envelope no_envelope_reply"
    by (simp_all add: no_envelope_reply_def lacks_envelope_def)
  have n: "success_2xx no_content_reply" "status_code no_content_reply \<noteq> 200"
    by (simp_all add: no_content_reply_def success_2xx_def)
  from missing_envelope_raises [of ?bad VEHICLES_ENDPOINT None "init_api None"
      ?bad ROUTE_ID_predictions "init_api None" ?bad "''3,4,5''" "init_api None"
      ?none VEHICLES_ENDPOINT None "init_api None"
      ?none ROUTE_ID_predictions "init_api None" ?none "''3,4,5''" "init_api None"]
    b n
  show ?thesis unfolding q by blast
qed

text \<open>
  Claim C10. After \<^verbatim>\<open>query_api(endpoint, params)\<close>, whatever its outcome, the dict the caller
  passed holds the three injected entries on top of its own, and no other dict has changed.
  A call that omits the argument writes them into the one default dict, which is empty when
  the module is loaded and holds them from the first such call on: the next call that omits
  the argument sends the dict it finds there. The dict \<^verbatim>\<open>get_vehicles\<close> creates ends up with
  five entries.
\<close>

theorem query_api_mutates_params:
  "dicts (snd (query_api net ep (Some p) st)) =
     (dicts st)(p := (dicts st p)(''key'' \<mapsto> BUSTIME_API_KEY st, ''format'' \<mapsto> Some ''json'',
        ''rtpidatafeed'' \<mapsto> Some DATAFEED_NAME))
   \<and> dicts (snd (query_api net ep None st)) =
     (dicts st)(default_params := (dicts st default_params)(''key'' \<mapsto> BUSTIME_API_KEY st,
        ''format'' \<mapsto> Some ''json'', ''rtpidatafeed'' \<mapsto> Some DATAFEED_NAME))
   \<and> dicts (init_api key) default_params = Map.empty
   \<and> dicts (snd (query_api net ep None (init_api key))) default_params =
       [''key'' \<mapsto> key, ''format'' \<mapsto> Some ''json'', ''rtpidatafeed'' \<mapsto> Some DATAFEED_NAME]
   \<and> query_request ep' None (snd (query_api net ep None st)) =
       \<lparr>url = BASE_URL @ ep', query = dicts (snd (query_api net ep None st)) default_params\<rparr>
   \<and> dicts (snd (get_vehicles net route_ids st)) (fresh st) =
       [''rt'' \<mapsto> Some route_ids, ''tmres'' \<mapsto> Some ''s'', ''key'' \<mapsto> BUSTIME_API_KEY st,
        ''format'' \<mapsto> Some ''json'', ''rtpidatafeed'' \<mapsto> Some DATAFEED_NAME]"
  by (simp add: query_api_state query_request_def inject_def init_api_def get_vehicles_eq
      after_call_def call_request_def fun_eq_iff)

section \<open>Tables and snapshots\<close>

lemma rows_drop_from: "rows (drop_from seen df) = rows df - set seen"
  by (induction df arbitrary: seen) (auto simp add: rows_def)

lemma distinct_drop_from: "distinct (map snd (drop_from seen df))"
proof (induction df arbitrary: seen)
  case Nil
  then show ?case by simp
next
  case (Cons r df)
  have "snd r \<notin> rows (drop_from (snd r # seen) df)"
    by (simp add: rows_drop_from)
  with Cons show ?case by (simp add: rows_def)
qed

lemma drop_from_fixed:
  "distinct (map snd df) \<Longrightarrow> rows df \<inter> set seen = {} \<Longrightarrow> drop_from seen df = df"
proof (induction df arbitrary: seen)
  case Nil
  then show ?case by simp
next
  case (Cons r df)
  from Cons.prems have "snd r \<notin> set seen" by (auto simp add: rows_def)
  moreover from Cons.prems have "rows df \<inter> set (snd r # seen) = {}"
    by (auto simp add: rows_def)
  moreover from Cons.prems have "distinct (map snd df)" by simp
  ultimately show ?case using Cons.IH by simp
qed

lemma drop_duplicates_idem: "drop_duplicates (drop_duplicates df) = drop_duplicates df"
  unfolding drop_duplicates_def
  by (rule drop_from_fixed) (simp_all add: distinct_drop_from)






subsection \<open>Snapshots only grow\<close>

lemma vehicle_tables_append [simp]:
  "vehicle_tables (w @ w') = vehicle_tables w @ vehicle_tables w'"
  by (induction w rule: vehicle_tables.induct) simp_all

lemma prediction_tables_append [simp]:
  "prediction_tables (w @ w') = prediction_tables w @ prediction_tables w'"
  by (induction w rule: prediction_tables.induct) simp_all









lemma vehicles_table_exact:
  "exact_vehicles rs \<Longrightarrow>
     vehicles_table pandas rs = Inr (VehicleTable (drop_duplicates (DataFrame rs)))"
  by (simp add: vehicles_table_def deduplicated_def exact_vehicles_def)

lemma predictions_table_exact:
  "exact_predictions rs \<Longrightarrow>
     predictions_table pandas rs = Inr (PredictionTable (drop_duplicates (DataFrame rs)))"
  by (simp add: predictions_table_def deduplicated_def exact_predictions_def)







declare updates_loop.simps [simp del]
declare predictions_loop.simps [simp del]



section \<open>Flushing\<close>

lemma flush_updates_written:
  "written (snd (flush_updates pandas st)) = written st @
     (case updates_file_name (vehicles st) of
        Inl e \<Rightarrow> []
      | Inr name \<Rightarrow>
          (case vehicles_table pandas (vehicles st) of
             Inl e \<Rightarrow> []
           | Inr df_vehicles \<Rightarrow> [(name, df_vehicles)]))"
  by (simp add: flush_updates_def split: sum.splits)

lemma flush_updates_buffers:
  "vehicles (snd (flush_updates pandas st)) = vehicles st"
  "predictions (snd (flush_updates pandas st)) = predictions st"
  by (simp_all add: flush_updates_def split: sum.splits)

lemma flush_updates_exact:
  "exact_vehicles (vehicles st) \<Longrightarrow> updates_file_name (vehicles st) = Inr name \<Longrightarrow>
     flush_updates pandas st =
       (Inr (), st\<lparr>written := written st @
          [(name, VehicleTable (drop_duplicates (DataFrame (vehicles st))))]\<rparr>)"
  by (simp add: flush_updates_def vehicles_table_exact)

lemma flush_predictions_written:
  "written (snd (flush_predictions pandas now st)) = written st @
     (case predictions_table pandas (predictions st) of
        Inl e \<Rightarrow> []
      | Inr df_predictions \<Rightarrow>
          (predictions_file now, df_predictions) #
          (case vehicles_table pandas (vehicles st) of
             Inl e \<Rightarrow> []
           | Inr df_vehicles \<Rightarrow> [(vehicles_file now, df_vehicles)]))"
  by (simp add: flush_predictions_def Let_def predictions_file_def vehicles_file_def
      split: sum.splits)

lemma flush_predictions_buffers:
  "vehicles (snd (flush_predictions pandas now st)) = vehicles st"
  "predictions (snd (flush_predictions pandas now st)) = predictions st"
  by (simp_all add: flush_predictions_def Let_def split: sum.splits)

lemma flush_predictions_exact:
  "exact_vehicles (vehicles st) \<Longrightarrow> exact_predictions (predictions st) \<Longrightarrow>
     flush_predictions pandas now st =
       (Inr (), st\<lparr>written := written st @
          [(predictions_file now,
            PredictionTable (drop_duplicates (DataFrame (predictions st)))),
           (vehicles_file now,
            VehicleTable (drop_duplicates (DataFrame (vehicles st))))]\<rparr>)"
  by (simp add: flush_predictions_def Let_def vehicles_table_exact predictions_table_exact
      predictions_file_def vehicles_file_def)







text \<open>
  Claim C7. Dropping duplicates from a table whose duplicates are already dropped changes
  nothing, and a flush directly followed by another flush, no tick in between, writes a
  second time what the first wrote, under the same names: for buffers whose cells are all
  a \<^verbatim>\<open>str\<close> or an \<^verbatim>\<open>int\<close> of 64 bits, the buffer with its duplicates dropped.
\<close>

theorem flush_twice_same_content:
  "drop_duplicates (drop_duplicates df) = drop_duplicates df
   \<and> written (snd (flush_predictions pandas now (snd (flush_predictions pandas now st)))) =
       written st @
       drop (length (written st)) (written (snd (flush_predictions pandas now st))) @
       drop (length (written st)) (written (snd (flush_predictions pandas now st)))
   \<and> written (snd (flush_updates pandas (snd (flush_updates pandas st)))) =
       written st @
       drop (length (written st)) (written (snd (flush_updates pandas st))) @
       drop (length (written st)) (written (snd (flush_updates pandas st)))
   \<and> (exact_vehicles (vehicles st) \<and> exact_predictions (predictions st) \<longrightarrow>
       written (snd (flush_predictions pandas now (snd (flush_predictions pandas now st)))) =
         written st @
         [(predictions_file now, PredictionTable (drop_duplicates (DataFrame (predictions st)))),
          (vehicles_file now, VehicleTable (drop_duplicates (DataFrame (vehicles st))))] @
         [(predictions_file now, PredictionTable (drop_duplicates (DataFrame (predictions st)))),
          (vehicles_file now, VehicleTable (drop_duplicates (DataFrame (vehicles st))))])
   \<and> (exact_vehicles (vehicles st) \<longrightarrow>
       written (snd (flush_updates pandas (snd (flush_updates pandas st)))) = written st @
         (case updates_file_name (vehicles st) of
            Inl e \<Rightarrow> []
          | Inr name \<Rightarrow> [(name, VehicleTable (drop_duplicates (DataFrame (vehicles st))))]) @
         (case updates_file_name (vehicles st) of
            Inl e \<Rightarrow> []
          | Inr name \<Rightarrow> [(name, VehicleTable (drop_duplicates (DataFrame (vehicles st))))]))"
proof -
  have a: "written (snd (flush_predictions pandas now (snd (flush_predictions pandas now st)))) =
       written st @
       drop (length (written st)) (written (snd (flush_predictions pandas now st))) @
       drop (length (written st)) (written (snd (flush_predictions pandas now st)))"
    by (simp add: flush_predictions_written flush_predictions_buffers cong: sum.case_cong)
  have b: "written (snd (flush_updates pandas (snd (flush_updates pandas st)))) =
       written st @
       drop (length (written st)) (written (snd (flush_updates pandas st))) @
       drop (length (written st)) (written (snd (flush_updates pandas st)))"
    by (simp add: flush_updates_written flush_updates_buffers cong: sum.case_cong)
  have c: "exact_vehicles (vehicles st) \<and> exact_predictions (predictions st) \<longrightarrow>
       written (snd (flush_predictions pandas now (snd (flush_predictions pandas now st)))) =
         written st @
         [(predictions_file now, PredictionTable (drop_duplicates (DataFrame (predictions st)))),
          (vehicles_file now, VehicleTable (drop_duplicates (DataFrame (vehicles st))))] @
         [(predictions_file now, PredictionTable (drop_duplicates (DataFrame (predictions st)))),
          (vehicles_file now, VehicleTable (drop_duplicates (DataFrame (vehicles st))))]"
    by (simp add: flush_predictions_written flush_predictions_buffers vehicles_table_exact
        predictions_table_exact)
  have d: "exact_vehicles (vehicles st) \<longrightarrow>
       written (snd (flush_updates pandas (snd (flush_updates pandas st)))) = written st @
         (case updates_file_name (vehicles st) of
            Inl e \<Rightarrow> []
          | Inr name \<Rightarrow> [(name, VehicleTable (drop_duplicates (DataFrame (vehicles st))))]) @
         (case updates_file_name (vehicles st) of
            Inl e \<Rightarrow> []
          | Inr name \<Rightarrow> [(name, VehicleTable (drop_duplicates (DataFrame (vehicles st))))])"
    by (simp add: flush_updates_written flush_updates_buffers vehicles_table_exact
        split: sum.splits)
  show ?thesis
    by (intro conjI) (rule drop_duplicates_idem a b c d)+
qed

section \<open>Runs without vehicles\<close>


lemma tick_updates_no_vehicles:
  assumes "\<forall>k q. no_vehicles_reply (net k q)" and "0 < every"
  shows "tick_updates pandas net every i st =
     (if (i + 1) mod every = 0
      then flush_updates pandas (st\<lparr>api := after_call VEHICLES_ENDPOINT ''rt'' ROUTE_ID_updates (api st)\<rparr>)
      else (Inr (), st\<lparr>api := after_call VEHICLES_ENDPOINT ''rt'' ROUTE_ID_updates (api st)\<rparr>))"
proof -
  from assms(1) have "bind_err (envelope (call_reply net VEHICLES_ENDPOINT ''rt'' ROUTE_ID_updates
      (api st))) vehicles_of_response = Inr []"
    by (simp add: no_vehicles_reply_def call_reply_def)
  with assms(2) show ?thesis
    by (simp add: tick_updates_def get_vehicles_eq Let_def)
qed

lemma flush_updates_empty: "vehicles st = [] \<Longrightarrow> flush_updates pandas st = (Inl IndexError, st)"
  by (simp add: flush_updates_def updates_file_name_def)

lemma updates_loop_no_vehicles:
  assumes quiet: "\<forall>k q. no_vehicles_reply (net k q)" and pos: "0 < every" and le: "every \<le> n"
  shows "i < every \<Longrightarrow> vehicles st = [] \<Longrightarrow>
     fst (updates_loop pandas net every n i st) = Inl IndexError \<and>
     vehicles (snd (updates_loop pandas net every n i st)) = [] \<and>
     written (snd (updates_loop pandas net every n i st)) = written st \<and>
     CALLS_COUNT (api (snd (updates_loop pandas net every n i st))) =
       CALLS_COUNT (api st) + int (every - i)"
proof (induction "every - Suc i" arbitrary: i st)
  case 0
  then have last: "Suc i = every" by simp
  then have m: "(i + 1) mod every = 0" by simp
  from 0 le have "i < n" by simp
  with m 0 show ?case
    by (simp add: updates_loop.simps [of pandas net every n i]
        tick_updates_no_vehicles [OF quiet pos] flush_updates_empty)
next
  case (Suc d)
  then have lt: "Suc i < every" by simp
  then have m: "(i + 1) mod every \<noteq> 0" by simp
  from lt le have "i < n" by simp
  let ?st1 = "st\<lparr>api := after_call VEHICLES_ENDPOINT ''rt'' ROUTE_ID_updates (api st)\<rparr>"
  have step: "updates_loop pandas net every n i st = updates_loop pandas net every n (Suc i) ?st1"
    using \<open>i < n\<close> m
    by (simp add: updates_loop.simps [of pandas net every n i] tick_updates_no_vehicles [OF quiet pos])
  from Suc(2) have d: "d = every - Suc (Suc i)" by simp
  from Suc.prems have v: "vehicles ?st1 = []" by simp
  from Suc(1) [OF d lt v] lt show ?case
    unfolding step by (simp add: Suc_diff_Suc)
qed

text \<open>
  Claim C9. In \<^verbatim>\<open>gather_bus_updates.py\<close> a flush with an empty vehicle buffer raises
  \<^verbatim>\<open>IndexError\<close> at \<^verbatim>\<open>vehicles[0]\<close> and writes nothing, and in a flush with a non-empty
  buffer no statement of the script raises it (what pandas may raise on columns it converts
  is a \<open>PandasError\<close>). So a tick at a flush boundary that finds the buffer empty and fetches no
  vehicle ends the run there, with no further request; and a run whose every response
  yields no vehicle ends with \<^verbatim>\<open>IndexError\<close> at its first flush boundary, after as many calls
  as ticks, with no file written.
\<close>

theorem flush_updates_needs_vehicles:
  "(vehicles st = [] \<longrightarrow> flush_updates pandas st = (Inl IndexError, st))
   \<and> (vehicles st' \<noteq> [] \<longrightarrow> fst (flush_updates pandas st') \<noteq> Inl IndexError)
   \<and> (vehicles st = [] \<and> fst (get_vehicles net ROUTE_ID_updates (api st)) = Inr [] \<and>
        0 < flush_every \<and> (i + 1) mod flush_every = 0 \<and> i < n
      \<longrightarrow> updates_loop pandas net flush_every n i st =
            (Inl IndexError, st\<lparr>api := snd (get_vehicles net ROUTE_ID_updates (api st))\<rparr>))
   \<and> ((\<forall>k q. no_vehicles_reply (net' k q)) \<and> 0 < flush_every' \<and> flush_every' \<le> n'
      \<longrightarrow> fst (updates_loop pandas net' flush_every' n' 0 (init_state key)) = Inl IndexError \<and>
          CALLS_COUNT (api (snd (updates_loop pandas net' flush_every' n' 0 (init_state key)))) =
            int flush_every' \<and>
          written (snd (updates_loop pandas net' flush_every' n' 0 (init_state key))) = [])"
proof -
  have a: "vehicles st = [] \<longrightarrow> flush_updates pandas st = (Inl IndexError, st)"
    by (simp add: flush_updates_empty)
  have b: "vehicles st' \<noteq> [] \<longrightarrow> fst (flush_updates pandas st') \<noteq> Inl IndexError"
  proof
    assume "vehicles st' \<noteq> []"
    then obtain v rest where vs: "vehicles st' = v # rest" by (cases "vehicles st'") auto
    have n: "updates_file_name (vehicles st') \<noteq> Inl IndexError"
      by (cases "v_timestamp v"; cases "v_timestamp (last (v # rest))")
         (simp_all add: updates_file_name_def vs)
    have t: "vehicles_table pandas (vehicles st') \<noteq> Inl IndexError"
      by (simp add: vehicles_table_def deduplicated_def split: option.splits)
    from n t show "fst (flush_updates pandas st') \<noteq> Inl IndexError"
      by (auto simp add: flush_updates_def split: sum.splits)
  qed
  have c: "vehicles st = [] \<and> fst (get_vehicles net ROUTE_ID_updates (api st)) = Inr [] \<and>
        0 < flush_every \<and> (i + 1) mod flush_every = 0 \<and> i < n
      \<longrightarrow> updates_loop pandas net flush_every n i st =
            (Inl IndexError, st\<lparr>api := snd (get_vehicles net ROUTE_ID_updates (api st))\<rparr>)"
  proof
    assume h: "vehicles st = [] \<and> fst (get_vehicles net ROUTE_ID_updates (api st)) = Inr [] \<and>
        0 < flush_every \<and> (i + 1) mod flush_every = 0 \<and> i < n"
    then have g: "get_vehicles net ROUTE_ID_updates (api st) =
        (Inr [], snd (get_vehicles net ROUTE_ID_updates (api st)))"
      by (cases "get_vehicles net ROUTE_ID_updates (api st)") simp
    have "tick_updates pandas net flush_every i st =
        (Inl IndexError, st\<lparr>api := snd (get_vehicles net ROUTE_ID_updates (api st))\<rparr>)"
      using h by (subst tick_updates_def, subst g) (simp add: flush_updates_empty)
    with h show "updates_loop pandas net flush_every n i st =
        (Inl IndexError, st\<lparr>api := snd (get_vehicles net ROUTE_ID_updates (api st))\<rparr>)"
      by (simp add: updates_loop.simps [of pandas net flush_every n i])
  qed
  have d: "(\<forall>k q. no_vehicles_reply (net' k q)) \<and> 0 < flush_every' \<and> flush_every' \<le> n'
      \<longrightarrow> fst (updates_loop pandas net' flush_every' n' 0 (init_state key)) = Inl IndexError \<and>
          CALLS_COUNT (api (snd (updates_loop pandas net' flush_every' n' 0 (init_state key)))) =
            int flush_every' \<and>
          written (snd (updates_loop pandas net' flush_every' n' 0 (init_state key))) = []"
  proof
    assume h: "(\<forall>k q. no_vehicles_reply (net' k q)) \<and> 0 < flush_every' \<and> flush_every' \<le> n'"
    then have q: "\<forall>k q. no_vehicles_reply (net' k q)" and p: "0 < flush_every'"
      and l: "flush_every' \<le> n'" by blast+
    have v: "vehicles (init_state key) = []" by (simp add: init_state_def)
    from updates_loop_no_vehicles [OF q p l p v]
    show "fst (updates_loop pandas net' flush_every' n' 0 (init_state key)) = Inl IndexError \<and>
          CALLS_COUNT (api (snd (updates_loop pandas net' flush_every' n' 0 (init_state key)))) =
            int flush_every' \<and>
          written (snd (updates_loop pandas net' flush_every' n' 0 (init_state key))) = []"
      by (simp add: init_state_def init_api_def)
  qed
  from a b c d show ?thesis by blast
qed

lemma outage_no_vehicles: "no_vehicles_reply outage_reply"
  by (simp add: no_vehicles_reply_def outage_reply_def envelope_def vehicles_of_response_def)

text \<open>
  Claim C6 on \<^verbatim>\<open>gather_bus_updates.py\<close>, when every call is answered with HTTP 500:
  \<^verbatim>\<open>get_vehicles\<close> returns the empty list and the counter grows by one at each call, but
  the 600th tick does not reach its sleep: the run ends there with \<^verbatim>\<open>IndexError\<close>, after 600
  calls and with no file written.
\<close>

theorem outage_until_first_flush_aborts:
  "fst (get_vehicles (constant_service outage_reply) ROUTE_ID_updates (init_api None)) = Inr []
   \<and> CALLS_COUNT (snd (get_vehicles (constant_service outage_reply) ROUTE_ID_updates
        (init_api None))) = 1
   \<and> fst (gather_bus_updates pandas (constant_service outage_reply) None) = Inl IndexError
   \<and> CALLS_COUNT (api (snd (gather_bus_updates pandas (constant_service outage_reply) None))) = 600
   \<and> written (snd (gather_bus_updates pandas (constant_service outage_reply) None)) = []"
proof -
  have q: "\<forall>k q. no_vehicles_reply (constant_service outage_reply k q)"
    by (simp add: constant_service_def outage_no_vehicles)
  have v: "vehicles (init_state None) = []" by (simp add: init_state_def)
  have g: "fst (get_vehicles (constant_service outage_reply) ROUTE_ID_updates (init_api None)) = Inr []
     \<and> CALLS_COUNT (snd (get_vehicles (constant_service outage_reply) ROUTE_ID_updates
        (init_api None))) = 1"
    using outage_no_vehicles
    by (simp add: get_vehicles_eq call_reply_def constant_service_def no_vehicles_reply_def
        init_api_def)
  from updates_loop_no_vehicles [OF q, of 600 3600 0 "init_state None"] v g
  show ?thesis
    by (simp add: gather_bus_updates_def init_state_def init_api_def)
qed

section \<open>File names\<close>

lemma get_vehicles_outage:
  "\<forall>k q. status_code (net k q) \<noteq> 200 \<Longrightarrow>
     get_vehicles net route_ids a = (Inr [], after_call VEHICLES_ENDPOINT ''rt'' route_ids a)"
  by (simp add: get_vehicles_eq call_reply_def envelope_not_200 vehicles_of_response_def)

lemma get_predictions_for_no_vehicles [simp]:
  "get_predictions_for_vehicles repr net [] a = (Inr [], a)"
  by (simp add: get_predictions_for_vehicles_def predictions_from.simps)

lemma exact_empty [simp]: "exact_vehicles []" "exact_predictions []"
  by (simp_all add: exact_vehicles_def exact_predictions_def)

lemma tick_predictions_outage:
  assumes "\<forall>k q. status_code (net k q) \<noteq> 200" and "0 < every"
    and "vehicles st = []" and "predictions st = []"
  shows "fst (tick_predictions pandas repr net now every i st) = Inr ()"
    and "vehicles (snd (tick_predictions pandas repr net now every i st)) = []"
    and "predictions (snd (tick_predictions pandas repr net now every i st)) = []"
  using assms
  by (simp_all add: tick_predictions_def fetch_tick_def get_vehicles_outage Let_def
      flush_predictions_exact)

lemma predictions_loop_outage:
  assumes "\<forall>k q. status_code (net k q) \<noteq> 200" and "0 < every"
  shows "vehicles st = [] \<Longrightarrow> predictions st = [] \<Longrightarrow>
     fst (predictions_loop pandas repr net now every n i st) = Inr ()"
proof (induction "n - i" arbitrary: i st)
  case 0
  then show ?case by (simp add: predictions_loop.simps)
next
  case (Suc d)
  then have lt: "i < n" and d: "d = n - Suc i" by simp_all
  obtain r st1 where t: "tick_predictions pandas repr net now every i st = (r, st1)" by force
  from tick_predictions_outage [OF assms Suc(3) Suc(4), of pandas repr now i] t
  have r: "r = Inr ()" and v: "vehicles st1 = []" and p: "predictions st1 = []" by simp_all
  from Suc(1) [OF d v p] lt t r show ?case
    by (simp add: predictions_loop.simps [of pandas repr net now every n i])
qed

lemma tick_predictions_names:
  assumes "fst (tick_predictions pandas repr net now every i st) = Inr ()"
  shows "map fst (written (snd (tick_predictions pandas repr net now every i st))) =
     map fst (written st) @
       (if (i + 1) mod every = 0 then [predictions_file now, vehicles_file now] else [])"
proof (cases "fetch_tick repr net (api st)")
  case (Pair r a)
  show ?thesis
  proof (cases r)
    case (Inl e)
    with Pair assms show ?thesis by (simp add: tick_predictions_def)
  next
    case (Inr vp)
    with Pair assms show ?thesis
      by (cases vp)
         (auto simp add: tick_predictions_def Let_def flush_predictions_def
            predictions_file_def vehicles_file_def split: if_splits sum.splits)
  qed
qed



lemma flush_count_step:
  assumes "Suc i \<le> n"
  shows "replicate (n div every - i div every) x =
     (if Suc i mod every = 0 then [x] else []) @ replicate (n div every - Suc i div every) x"
proof (cases "Suc i mod every = 0")
  case False
  then show ?thesis by (simp add: div_Suc)
next
  case True
  from assms have "Suc i div every \<le> n div every" by (rule div_le_mono)
  with True have "n div every - i div every = Suc (n div every - Suc i div every)"
    by (simp add: div_Suc)
  with True show ?thesis by simp
qed

lemma predictions_loop_names:
  "fst (predictions_loop pandas repr net now every n i st) = Inr () \<Longrightarrow> i \<le> n \<Longrightarrow>
     map fst (written (snd (predictions_loop pandas repr net now every n i st))) =
     map fst (written st) @
       concat (replicate (n div every - i div every) [predictions_file now, vehicles_file now])"
proof (induction pandas repr net now every n i st rule: predictions_loop.induct)
  case (1 pandas repr net now every n i st)
  show ?case
  proof (cases "i < n")
    case False
    with 1(3) have "i = n" by simp
    then show ?thesis by (simp add: predictions_loop.simps)
  next
    case True
    obtain r st1 where t: "tick_predictions pandas repr net now every i st = (r, st1)" by force
    with True 1(2) have r: "r = Inr ()"
      by (cases r) (simp_all add: predictions_loop.simps [of pandas repr net now every n i])
    from True t r have step: "predictions_loop pandas repr net now every n i st =
        predictions_loop pandas repr net now every n (Suc i) st1"
      by (simp add: predictions_loop.simps [of pandas repr net now every n i])
    from tick_predictions_names [of pandas repr net now every i st] t r
    have n1: "map fst (written st1) = map fst (written st) @
        (if Suc i mod every = 0 then [predictions_file now, vehicles_file now] else [])"
      by simp
    from True have le: "Suc i \<le> n" by simp
    from 1(1) [OF True t [symmetric] r] 1(2) le
    have "map fst (written (snd (predictions_loop pandas repr net now every n (Suc i) st1))) =
        map fst (written st1) @ concat (replicate (n div every - Suc i div every)
          [predictions_file now, vehicles_file now])"
      unfolding step by simp
    then show ?thesis
      unfolding step n1 flush_count_step [OF le, of every] by simp
  qed
qed







subsection \<open>The files of a run of the update loop are named after prefixes of its buffer\<close>










section \<open>When a flush happens\<close>

lemma envelope_full_reply:
  "envelope full_reply = Inr (JObj
     [(''vehicle'', JList [sample_raw_vehicle ''3301'' ''20210301 10:00:00'']),
      (''prd'', JList [sample_entry ''A'' ''3301'', sample_entry ''D'' ''3301''])])"
  by (simp add: envelope_def full_reply_def json_loads_def)

lemma vehicles_full_reply:
  "vehicles_of_response (JObj
     [(''vehicle'', JList [sample_raw_vehicle ''3301'' ''20210301 10:00:00'']),
      (''prd'', JList [sample_entry ''A'' ''3301'', sample_entry ''D'' ''3301''])]) = Inr [bus]"
  by code_simp

lemma get_vehicles_full_reply:
  "get_vehicles (constant_service full_reply) route_ids a =
     (Inr [bus], after_call VEHICLES_ENDPOINT ''rt'' route_ids a)"
  by (simp add: get_vehicles_eq call_reply_def constant_service_def envelope_full_reply
      vehicles_full_reply)

lemma frame_three_buses: "drop_duplicates (DataFrame [bus, bus, bus]) = [(0, bus)]"
  by (simp add: drop_duplicates_def DataFrame_def upt_rec)

lemma bus_file_name:
  "updates_file_name [bus, bus, bus] = Inr ''vehicles20210301@10:00:00-20210301@10:00:00.csv''"
  by (simp add: updates_file_name_def bus_def sample_vehicle_def)

lemma exact_three_buses: "exact_vehicles [bus, bus, bus]"
  by (simp add: exact_vehicles_def vehicle_cells_def bus_def sample_vehicle_def)

lemma no_service_no_vehicles: "no_vehicles_reply no_service_reply"
  by code_simp

lemma three_ticks_full_reply:
  "fst (updates_loop pandas (constant_service full_reply) 3 3 0 (init_state None)) = Inr ()"
  "written (snd (updates_loop pandas (constant_service full_reply) 3 3 0 (init_state None))) =
     [(''vehicles20210301@10:00:00-20210301@10:00:00.csv'', VehicleTable [(0, bus)])]"
  "vehicles (snd (updates_loop pandas (constant_service full_reply) 3 3 0 (init_state None))) =
     [bus, bus, bus]"
  "fst (updates_loop pandas (constant_service full_reply) 3 1 0 (init_state None)) = Inr ()"
  "written (snd (updates_loop pandas (constant_service full_reply) 3 1 0 (init_state None))) = []"
  "fst (updates_loop pandas (constant_service full_reply) 3 2 0 (init_state None)) = Inr ()"
  "written (snd (updates_loop pandas (constant_service full_reply) 3 2 0 (init_state None))) = []"
proof -
  let ?net = "constant_service full_reply"
  define a1 where "a1 = after_call VEHICLES_ENDPOINT ''rt'' ROUTE_ID_updates (init_api None)"
  define a2 where "a2 = after_call VEHICLES_ENDPOINT ''rt'' ROUTE_ID_updates a1"
  define a3 where "a3 = after_call VEHICLES_ENDPOINT ''rt'' ROUTE_ID_updates a2"
  let ?s1 = "\<lparr>api = a1, vehicles = [bus], predictions = [], written = []\<rparr>"
  let ?s2 = "\<lparr>api = a2, vehicles = [bus, bus], predictions = [], written = []\<rparr>"
  let ?s3 = "\<lparr>api = a3, vehicles = [bus, bus, bus], predictions = [], written = []\<rparr>"
  have t1: "tick_updates pandas ?net 3 0 (init_state None) = (Inr (), ?s1)"
    by (simp add: tick_updates_def get_vehicles_full_reply init_state_def a1_def)
  have t2: "tick_updates pandas ?net 3 (Suc 0) ?s1 = (Inr (), ?s2)"
    by (simp add: tick_updates_def get_vehicles_full_reply a2_def)
  have f: "flush_updates pandas ?s3 = (Inr (), ?s3\<lparr>written :=
      [(''vehicles20210301@10:00:00-20210301@10:00:00.csv'', VehicleTable [(0, bus)])]\<rparr>)"
    using flush_updates_exact [of ?s3 _ pandas] exact_three_buses bus_file_name
    by (simp add: frame_three_buses)
  have t3: "tick_updates pandas ?net 3 (Suc (Suc 0)) ?s2 = flush_updates pandas ?s3"
    by (simp add: tick_updates_def get_vehicles_full_reply a3_def numeral_3_eq_3)
  have run: "updates_loop pandas ?net 3 3 0 (init_state None) = (Inr (), ?s3\<lparr>written :=
      [(''vehicles20210301@10:00:00-20210301@10:00:00.csv'', VehicleTable [(0, bus)])]\<rparr>)"
    by (simp add: updates_loop.simps [of pandas ?net 3 3 0]
        updates_loop.simps [of pandas ?net 3 3 "Suc 0"]
        updates_loop.simps [of pandas ?net 3 3 "Suc (Suc 0)"]
        updates_loop.simps [of pandas ?net 3 3 "Suc (Suc (Suc 0))"]
        t1 t2 t3 f)
  show "fst (updates_loop pandas ?net 3 3 0 (init_state None)) = Inr ()"
    by (simp add: run)
  show "written (snd (updates_loop pandas ?net 3 3 0 (init_state None))) =
     [(''vehicles20210301@10:00:00-20210301@10:00:00.csv'', VehicleTable [(0, bus)])]"
    by (simp add: run)
  show "vehicles (snd (updates_loop pandas ?net 3 3 0 (init_state None))) = [bus, bus, bus]"
    by (simp add: run)
  have run1: "updates_loop pandas ?net 3 1 0 (init_state None) = (Inr (), ?s1)"
    by (simp add: updates_loop.simps [of pandas ?net 3 "Suc 0" 0]
        updates_loop.simps [of pandas ?net 3 "Suc 0" "Suc 0"] t1)
  have run2: "updates_loop pandas ?net 3 2 0 (init_state None) = (Inr (), ?s2)"
    by (simp add: updates_loop.simps [of pandas ?net 3 2 0]
        updates_loop.simps [of pandas ?net 3 2 "Suc 0"]
        updates_loop.simps [of pandas ?net 3 2 "Suc (Suc 0)"] t1 t2)
  show "fst (updates_loop pandas ?net 3 1 0 (init_state None)) = Inr ()"
    using run1 by simp
  show "written (snd (updates_loop pandas ?net 3 1 0 (init_state None))) = []"
    using run1 by simp
  show "fst (updates_loop pandas ?net 3 2 0 (init_state None)) = Inr ()"
    by (simp add: run2)
  show "written (snd (updates_loop pandas ?net 3 2 0 (init_state None))) = []"
    by (simp add: run2)
qed

text \<open>
  Claim C8 on \<^verbatim>\<open>gather_bus_updates.py\<close>, with a flush every three ticks. When every call is
  answered with HTTP 500, or with a report that no bus of these routes is running, the
  three ticks return no vehicle and the flush block entered at tick 3 raises \<^verbatim>\<open>IndexError\<close>
  at \<^verbatim>\<open>vehicles[0]\<close>: the run ends there, after three calls, and no file is written. With a
  service that returns the same vehicle at each tick, a run of one tick or of two has
  written nothing, and the run of three ticks ends with one file that holds that vehicle
  once. The loop of \<^verbatim>\<open>gather_predictions.py\<close>, which names its files after \<^verbatim>\<open>now\<close>,
  completes under the outage and has written its two files.
\<close>

theorem three_ticks_without_vehicles_write_no_file:
  "fst (updates_loop pandas (constant_service outage_reply) 3 3 0 (init_state None))
     = Inl IndexError
   \<and> written (snd (updates_loop pandas (constant_service outage_reply) 3 3 0
        (init_state None))) = []
   \<and> CALLS_COUNT (api (snd (updates_loop pandas (constant_service outage_reply) 3 3 0
        (init_state None)))) = 3
   \<and> fst (updates_loop pandas (constant_service no_service_reply) 3 3 0 (init_state None))
     = Inl IndexError
   \<and> written (snd (updates_loop pandas (constant_service no_service_reply) 3 3 0
        (init_state None))) = []
   \<and> CALLS_COUNT (api (snd (updates_loop pandas (constant_service no_service_reply) 3 3 0
        (init_state None)))) = 3
   \<and> fst (updates_loop pandas (constant_service full_reply) 3 1 0 (init_state None)) = Inr ()
   \<and> written (snd (updates_loop pandas (constant_service full_reply) 3 1 0 (init_state None)))
     = []
   \<and> fst (updates_loop pandas (constant_service full_reply) 3 2 0 (init_state None)) = Inr ()
   \<and> written (snd (updates_loop pandas (constant_service full_reply) 3 2 0 (init_state None)))
     = []
   \<and> fst (updates_loop pandas (constant_service full_reply) 3 3 0 (init_state None)) = Inr ()
   \<and> written (snd (updates_loop pandas (constant_service full_reply) 3 3 0 (init_state None)))
     = [(''vehicles20210301@10:00:00-20210301@10:00:00.csv'', VehicleTable [(0, bus)])]
   \<and> fst (predictions_loop pandas repr (constant_service outage_reply) now 3 3 0
        (init_state None)) = Inr ()
   \<and> map fst (written (snd (predictions_loop pandas repr (constant_service outage_reply)
        now 3 3 0 (init_state None))))
     = [predictions_file now, vehicles_file now]"
proof -
  have v: "vehicles (init_state None) = []" "predictions (init_state None) = []"
    "written (init_state None) = []" "CALLS_COUNT (api (init_state None)) = 0"
    by (simp_all add: init_state_def init_api_def)
  have q1: "\<forall>k q. no_vehicles_reply (constant_service outage_reply k q)"
    by (simp add: constant_service_def outage_no_vehicles)
  have q2: "\<forall>k q. no_vehicles_reply (constant_service no_service_reply k q)"
    by (simp add: constant_service_def no_service_no_vehicles)
  note r1 = updates_loop_no_vehicles [OF q1, of 3 3 0 "init_state None" pandas, simplified v]
  note r2 = updates_loop_no_vehicles [OF q2, of 3 3 0 "init_state None" pandas, simplified v]
  have o: "\<forall>k q. status_code (constant_service outage_reply k q) \<noteq> 200"
    by (simp add: constant_service_def outage_reply_def)
  have p1: "fst (predictions_loop pandas repr (constant_service outage_reply) now 3 3 0
      (init_state None)) = Inr ()"
    by (rule predictions_loop_outage [OF o]) (simp_all add: v)
  from predictions_loop_names [OF p1]
  have p2: "map fst (written (snd (predictions_loop pandas repr (constant_service outage_reply)
      now 3 3 0 (init_state None)))) = [predictions_file now, vehicles_file now]"
    by (simp add: v)
  from r1 r2 p1 p2 three_ticks_full_reply(1,2,4,5,6,7) [of pandas] show ?thesis by simp
qed

section \<open>Instances\<close>

text \<open>
  The statements above at sample inputs: a buffer that holds the same record twice and a
  third that differs from it in its speed only, a service that answers every call with
  HTTP 500, and one that answers every call with the same vehicle.
\<close>

lemma slower_differs: "slower bus \<noteq> bus"
  by (simp add: slower_def bus_def sample_vehicle_def)

lemma frame_with_duplicates:
  "drop_duplicates (DataFrame [bus, slower bus, bus]) = [(0, bus), (1, slower bus)]"
  using slower_differs by (simp add: drop_duplicates_def DataFrame_def upt_rec)

lemma duplicates_file_name:
  "updates_file_name [bus, slower bus, bus] =
     Inr ''vehicles20210301@10:00:00-20210301@10:00:00.csv''"
  by (simp add: updates_file_name_def bus_def sample_vehicle_def slower_def)

lemma exact_duplicates: "exact_vehicles [bus, slower bus, bus]"
  by (simp add: exact_vehicles_def vehicle_cells_def bus_def sample_vehicle_def slower_def)

lemma frame_empty: "drop_duplicates (DataFrame []) = []"
  by (simp add: drop_duplicates_def DataFrame_def)

lemma buffered_simps:
  "vehicles (buffered vs) = vs" "predictions (buffered vs) = []" "written (buffered vs) = []"
  by (simp_all add: buffered_def init_state_def)



text \<open>The same buffer flushed twice in a row.\<close>

theorem flush_twice_same_content_witness:
  "drop_duplicates (drop_duplicates (DataFrame [bus, slower bus, bus]))
     = [(0, bus), (1, slower bus)]
   \<and> exact_vehicles (vehicles (buffered [bus, slower bus, bus]))
   \<and> exact_predictions (predictions (buffered [bus, slower bus, bus]))
   \<and> written (snd (flush_updates never_raises
        (snd (flush_updates never_raises (buffered [bus, slower bus, bus])))))
     = [(''vehicles20210301@10:00:00-20210301@10:00:00.csv'',
         VehicleTable [(0, bus), (1, slower bus)]),
        (''vehicles20210301@10:00:00-20210301@10:00:00.csv'',
         VehicleTable [(0, bus), (1, slower bus)])]
   \<and> written (snd (flush_predictions never_raises 1614592800
        (snd (flush_predictions never_raises 1614592800 (buffered [bus, slower bus, bus])))))
     = [(predictions_file 1614592800, PredictionTable []),
        (vehicles_file 1614592800, VehicleTable [(0, bus), (1, slower bus)]),
        (predictions_file 1614592800, PredictionTable []),
        (vehicles_file 1614592800, VehicleTable [(0, bus), (1, slower bus)])]"
proof -
  note t = flush_twice_same_content [where df = "DataFrame [bus, slower bus, bus]"
      and pandas = never_raises and now = 1614592800
      and st = "buffered [bus, slower bus, bus]"]
  have ev: "exact_vehicles (vehicles (buffered [bus, slower bus, bus]))"
    by (simp add: buffered_simps exact_duplicates)
  have ep: "exact_predictions (predictions (buffered [bus, slower bus, bus]))"
    by (simp add: buffered_simps)
  from t [THEN conjunct1]
  have d: "drop_duplicates (drop_duplicates (DataFrame [bus, slower bus, bus]))
     = [(0, bus), (1, slower bus)]"
    by (simp only: frame_with_duplicates)
  from t [THEN conjunct2, THEN conjunct2, THEN conjunct2, THEN conjunct2, THEN mp, OF ev]
  have w: "written (snd (flush_updates never_raises
        (snd (flush_updates never_raises (buffered [bus, slower bus, bus])))))
     = [(''vehicles20210301@10:00:00-20210301@10:00:00.csv'',
         VehicleTable [(0, bus), (1, slower bus)]),
        (''vehicles20210301@10:00:00-20210301@10:00:00.csv'',
         VehicleTable [(0, bus), (1, slower bus)])]"
    by (simp add: buffered_simps duplicates_file_name frame_with_duplicates)
  from t [THEN conjunct2, THEN conjunct2, THEN conjunct2, THEN conjunct1, THEN mp,
      OF conjI [OF ev ep]]
  have p: "written (snd (flush_predictions never_raises 1614592800
        (snd (flush_predictions never_raises 1614592800 (buffered [bus, slower bus, bus])))))
     = [(predictions_file 1614592800, PredictionTable []),
        (vehicles_file 1614592800, VehicleTable [(0, bus), (1, slower bus)]),
        (predictions_file 1614592800, PredictionTable []),
        (vehicles_file 1614592800, VehicleTable [(0, bus), (1, slower bus)])]"
    by (simp add: buffered_simps frame_with_duplicates frame_empty)
  show ?thesis
    by (intro conjI) (rule d ev ep w p)+
qed

text \<open>
  The empty buffer of the initial state, a buffer of one record, and the run of
  \<^verbatim>\<open>gather_bus_updates.py\<close> against a service that answers every call with HTTP 500.
\<close>

theorem flush_updates_needs_vehicles_witness:
  "vehicles (init_state None) = []
   \<and> flush_updates never_raises (init_state None) = (Inl IndexError, init_state None)
   \<and> vehicles (buffered [bus]) \<noteq> []
   \<and> fst (flush_updates never_raises (buffered [bus])) \<noteq> Inl IndexError
   \<and> fst (get_vehicles (constant_service outage_reply) ROUTE_ID_updates
         (api (init_state None))) = Inr []
   \<and> fst (updates_loop never_raises (constant_service outage_reply) 600 3600 599
         (init_state None)) = Inl IndexError
   \<and> fst (updates_loop never_raises (constant_service outage_reply) 600 3600 0
         (init_state None)) = Inl IndexError
   \<and> written (snd (updates_loop never_raises (constant_service outage_reply) 600 3600 0
         (init_state None))) = []"
proof -
  let ?net = "constant_service outage_reply"
  note t = flush_updates_needs_vehicles [where st = "init_state None" and pandas = never_raises
      and st' = "buffered [bus]" and net = ?net and flush_every = 600 and i = 599 and n = 3600
      and net' = ?net and flush_every' = 600 and n' = 3600 and key = None]
  have e: "vehicles (init_state None) = []" by (simp add: init_state_def)
  have ne: "vehicles (buffered [bus]) \<noteq> []" by (simp add: buffered_def)
  have q: "\<forall>k q. no_vehicles_reply (?net k q)"
    by (simp add: constant_service_def outage_no_vehicles)
  have g: "fst (get_vehicles ?net ROUTE_ID_updates (api (init_state None))) = Inr []"
    using outage_no_vehicles
    by (simp add: get_vehicles_eq call_reply_def constant_service_def no_vehicles_reply_def)
  have a: "(0::nat) < 600" "(599 + 1) mod 600 = (0::nat)" "(599::nat) < 3600" "(600::nat) \<le> 3600"
    by simp_all
  note c1 = t [THEN conjunct1, THEN mp, OF e]
  note c2 = t [THEN conjunct2, THEN conjunct1, THEN mp, OF ne]
  note c3 = t [THEN conjunct2, THEN conjunct2, THEN conjunct1, THEN mp,
      OF conjI [OF e conjI [OF g conjI [OF a(1) conjI [OF a(2) a(3)]]]]]
  note c4 = t [THEN conjunct2, THEN conjunct2, THEN conjunct2, THEN mp,
      OF conjI [OF q conjI [OF a(1) a(4)]]]
  have l: "fst (updates_loop never_raises ?net 600 3600 599 (init_state None)) = Inl IndexError"
    by (simp only: c3 fst_conv)
  show ?thesis
    by (intro conjI) (rule e c1 ne c2 g l c4 [THEN conjunct1] c4 [THEN conjunct2, THEN conjunct2])+
qed


end
